theory Spec2Isabelle
  imports Main "HOL-Library.Word"
begin

unbundle bit_operations_syntax

section \<open>Errors\<close>

text \<open>
  The service is \<^verbatim>\<open>src/main.py\<close>: five FastAPI handlers over one SQLite table.

  What a handler can raise: the \<^verbatim>\<open>HTTPException\<close> of the source with its status code and
  detail, pydantic's \<^verbatim>\<open>ValidationError\<close> when \<^verbatim>\<open>Item(...)\<close> is given no name, the two
  errors of the session (a second row under a primary key, a refresh of a row that is gone),
  and \<^verbatim>\<open>UnicodeEncodeError\<close> when a text that has no UTF-8 encoding is encoded, by
  \<^verbatim>\<open>str.encode\<close> or by the database driver that binds it to a statement.
\<close>

datatype error =
  HTTPException nat string
| ValidationError
| IntegrityError
| InvalidRequestError
| UnicodeEncodeError

section \<open>Strings and bytes\<close>

text \<open>
  A Python \<^verbatim>\<open>str\<close> is a sequence of code points, each a 32-bit value below \<open>0x110000\<close>.
  The surrogates \<open>0xD800\<close> to \<open>0xDFFF\<close> are code points like the others: a \<^verbatim>\<open>str\<close> may
  hold one on its own (the JSON text \<^verbatim>\<open>"\ud800"\<close> is parsed to such a \<^verbatim>\<open>str\<close>), and only
  encoding it fails. The name and the description of a request are such sequences.

  Two kinds of text are always well formed, and are kept as a HOL \<^typ>\<open>string\<close>: the text
  that an f-string renders for a float, and an id, which is either made by \<open>hexdigest\<close>
  or a path parameter that the server has decoded from the URL. \<open>str_of\<close> reads the
  characters of such a text as code points.
\<close>

type_synonym byte = "8 word"
type_synonym u32 = "32 word"
type_synonym str = "u32 list"

definition str_of :: "string \<Rightarrow> str" where
  "str_of s = map of_char s"

definition surrogate :: "u32 \<Rightarrow> bool" where
  "surrogate c \<longleftrightarrow> 0xD800 \<le> c \<and> c \<le> 0xDFFF"

text \<open>
  \<^verbatim>\<open>raw_data.encode()\<close>: the UTF-8 encoder with the error handler \<^verbatim>\<open>strict\<close>, one code
  point at a time, by shifts and masks. It raises on a surrogate. A value from \<open>0x110000\<close>
  on is no code point and no \<^verbatim>\<open>str\<close> holds one; the encoder of the model refuses it too.
\<close>

definition encode_char :: "u32 \<Rightarrow> error + byte list" where
  "encode_char c =
     (if c < 0x80 then Inr [ucast c]
      else if c < 0x800 then
        Inr [ucast (0xC0 OR drop_bit 6 c), ucast (0x80 OR (c AND 0x3F))]
      else if surrogate c then Inl UnicodeEncodeError
      else if c < 0x10000 then
        Inr [ucast (0xE0 OR drop_bit 12 c), ucast (0x80 OR (drop_bit 6 c AND 0x3F)),
             ucast (0x80 OR (c AND 0x3F))]
      else if c < 0x110000 then
        Inr [ucast (0xF0 OR drop_bit 18 c), ucast (0x80 OR (drop_bit 12 c AND 0x3F)),
             ucast (0x80 OR (drop_bit 6 c AND 0x3F)), ucast (0x80 OR (c AND 0x3F))]
      else Inl UnicodeEncodeError)"

fun encode :: "str \<Rightarrow> error + byte list" where
  "encode [] = Inr []"
| "encode (c # cs) =
     (case encode_char c of
        Inl e \<Rightarrow> Inl e
      | Inr bs \<Rightarrow> (case encode cs of Inl e \<Rightarrow> Inl e | Inr bs' \<Rightarrow> Inr (bs @ bs')))"

section \<open>hashlib.sha256\<close>

text \<open>
  \<^verbatim>\<open>hashlib\<close> is the standard library's. Its digest is written out here the way an
  implementation computes it, on 32-bit words and block by block, so that \<open>generate_id\<close>
  can be evaluated: the padding by a closed formula, a block cut out of the message and
  read into sixteen words, the message schedule kept as a moving window of sixteen words,
  the rounds run down the list of constants. That this is the SHA-256 of FIPS 180-4 is
  proved below, against the standard's own definitions.
\<close>

definition rotr :: "nat \<Rightarrow> u32 \<Rightarrow> u32" where
  "rotr n x = drop_bit n x OR push_bit (32 - n) x"

definition Ch :: "u32 \<Rightarrow> u32 \<Rightarrow> u32 \<Rightarrow> u32" where
  "Ch x y z = (x AND y) XOR (NOT x AND z)"

definition Maj :: "u32 \<Rightarrow> u32 \<Rightarrow> u32 \<Rightarrow> u32" where
  "Maj x y z = (x AND y) XOR (x AND z) XOR (y AND z)"

definition Sigma0 :: "u32 \<Rightarrow> u32" where
  "Sigma0 x = rotr 2 x XOR rotr 13 x XOR rotr 22 x"

definition Sigma1 :: "u32 \<Rightarrow> u32" where
  "Sigma1 x = rotr 6 x XOR rotr 11 x XOR rotr 25 x"

definition sigma0 :: "u32 \<Rightarrow> u32" where
  "sigma0 x = rotr 7 x XOR rotr 18 x XOR drop_bit 3 x"

definition sigma1 :: "u32 \<Rightarrow> u32" where
  "sigma1 x = rotr 17 x XOR rotr 19 x XOR drop_bit 10 x"

text \<open>The round constants: the first 32 fraction bits of the cube roots of the first 64 primes.\<close>

definition K256 :: "u32 list" where
  "K256 =
  [1116352408, 1899447441, 3049323471, 3921009573,
   961987163, 1508970993, 2453635748, 2870763221,
   3624381080, 310598401, 607225278, 1426881987,
   1925078388, 2162078206, 2614888103, 3248222580,
   3835390401, 4022224774, 264347078, 604807628,
   770255983, 1249150122, 1555081692, 1996064986,
   2554220882, 2821834349, 2952996808, 3210313671,
   3336571891, 3584528711, 113926993, 338241895,
   666307205, 773529912, 1294757372, 1396182291,
   1695183700, 1986661051, 2177026350, 2456956037,
   2730485921, 2820302411, 3259730800, 3345764771,
   3516065817, 3600352804, 4094571909, 275423344,
   430227734, 506948616, 659060556, 883997877,
   958139571, 1322822218, 1537002063, 1747873779,
   1955562222, 2024104815, 2227730452, 2361852424,
   2428436474, 2756734187, 3204031479, 3329325298]"

text \<open>The eight working words, and their initial value (square roots of the first 8 primes).\<close>

datatype hash = Hash u32 u32 u32 u32 u32 u32 u32 u32

definition H0 :: hash where
  "H0 = Hash 1779033703 3144134277 1013904242 2773480762
             1359893119 2600822924 528734635 1541459225"

fun round256 :: "u32 \<Rightarrow> u32 \<Rightarrow> hash \<Rightarrow> hash" where
  "round256 k w (Hash a b c d e f g h) =
     (let T1 = h + Sigma1 e + Ch e f g + k + w;
          T2 = Sigma0 a + Maj a b c
      in Hash (T1 + T2) a b c (d + T1) e f g)"

text \<open>
  The message schedule is kept as a window of sixteen words \<open>W\<^sub>t, \<dots>, W\<^sub>t\<^sub>+\<^sub>1\<^sub>5\<close>; the word
  that enters is \<open>W\<^sub>t\<^sub>+\<^sub>1\<^sub>6 = \<sigma>\<^sub>1 W\<^sub>t\<^sub>+\<^sub>1\<^sub>4 + W\<^sub>t\<^sub>+\<^sub>9 + \<sigma>\<^sub>0 W\<^sub>t\<^sub>+\<^sub>1 + W\<^sub>t\<close>.
\<close>

definition next_window :: "u32 list \<Rightarrow> u32 list" where
  "next_window w = tl w @ [sigma1 (w ! 14) + w ! 9 + sigma0 (w ! 1) + w ! 0]"

fun rounds :: "u32 list \<Rightarrow> u32 list \<Rightarrow> hash \<Rightarrow> hash" where
  "rounds [] w s = s"
| "rounds (k # ks) w s = rounds ks (next_window w) (round256 k (hd w) s)"

fun hash_add :: "hash \<Rightarrow> hash \<Rightarrow> hash" where
  "hash_add (Hash a b c d e f g h) (Hash a' b' c' d' e' f' g' h') =
     Hash (a + a') (b + b') (c + c') (d + d') (e + e') (f + f') (g + g') (h + h')"

definition be_word :: "byte list \<Rightarrow> u32" where
  "be_word bs = foldl (\<lambda>w b. push_bit 8 w OR ucast b) 0 bs"

definition block_words :: "byte list \<Rightarrow> u32 list" where
  "block_words blk = map (\<lambda>i. be_word (take 4 (drop (4 * i) blk))) [0..<16]"

definition compress :: "hash \<Rightarrow> byte list \<Rightarrow> hash" where
  "compress s blk = hash_add s (rounds K256 (block_words blk) s)"

definition be_bytes :: "nat \<Rightarrow> 'a::len word \<Rightarrow> byte list" where
  "be_bytes n x = map (\<lambda>i. ucast (drop_bit (8 * (n - 1 - i)) x)) [0..<n]"

text \<open>Padding: the bit 1, zeros up to 56 modulo 64 bytes, the bit length on 64 bits.\<close>

definition pad :: "byte list \<Rightarrow> byte list" where
  "pad m = m @ [128] @ replicate ((119 - length m mod 64) mod 64) 0
             @ be_bytes 8 (of_nat (8 * length m) :: 64 word)"

definition blocks :: "byte list \<Rightarrow> byte list list" where
  "blocks bs = map (\<lambda>i. take 64 (drop (64 * i) bs)) [0..<length bs div 64]"

definition sha256 :: "byte list \<Rightarrow> hash" where
  "sha256 m = foldl compress H0 (blocks (pad m))"

fun digest :: "hash \<Rightarrow> byte list" where
  "digest (Hash a b c d e f g h) = concat (map (be_bytes 4) [a, b, c, d, e, f, g, h])"

text \<open>\<^verbatim>\<open>hexdigest()\<close>: two digits for a byte, the high nibble first.\<close>

definition hexdigit :: "nat \<Rightarrow> char" where
  "hexdigit n = ''0123456789abcdef'' ! n"

definition hex_byte :: "byte \<Rightarrow> string" where
  "hex_byte b = [hexdigit (unat (drop_bit 4 b)), hexdigit (unat (b AND 0x0F))]"

definition hexdigest :: "hash \<Rightarrow> string" where
  "hexdigest s = concat (map hex_byte (digest s))"

definition lower_hex :: "string \<Rightarrow> bool" where
  "lower_hex s \<longleftrightarrow> set s \<subseteq> set ''0123456789abcdef''"

section \<open>The identifier generator\<close>

text \<open>
  \<^verbatim>\<open>generate_id(name, description)\<close> reads the clock. The text that the f-string
  renders for \<^verbatim>\<open>time.time()\<close> is the parameter \<open>now\<close>: the clock is the caller's
  environment, and the decimal rendering of a float is not modelled. \<open>DBItem.__init__\<close>
  passes the request's optional description on as it is, and an f-string renders
  \<^verbatim>\<open>None\<close> as the text \<^verbatim>\<open>None\<close>. The function raises when \<^verbatim>\<open>encode\<close> does.
\<close>

definition format_str :: "str option \<Rightarrow> str" where
  "format_str v = (case v of None \<Rightarrow> str_of ''None'' | Some s \<Rightarrow> s)"

definition generate_id :: "str \<Rightarrow> str option \<Rightarrow> string \<Rightarrow> error + string" where
  "generate_id name description now =
     (let raw_data = name @ str_of ''-'' @ format_str description @ str_of ''-'' @ str_of now
      in case encode raw_data of
           Inl e \<Rightarrow> Inl e
         | Inr bytes \<Rightarrow> Inr (hexdigest (sha256 bytes)))"

section \<open>The standards that the specification names\<close>

text \<open>
  The specification describes the id as the lowercase hexadecimal text of the SHA-256
  digest of the UTF-8 bytes of a string. These definitions follow the words of the two
  standards, not the code: they are what \<open>generate_id\<close> is compared with.
\<close>

subsection \<open>UTF-8 (RFC 3629)\<close>

text \<open>
  A scalar value is a code point that is no surrogate. Its octets, by the table of
  section 3: the bits of the code point fill the \<open>x\<close> of
  \<^verbatim>\<open>0xxxxxxx\<close>, \<^verbatim>\<open>110xxxxx 10xxxxxx\<close>, \<^verbatim>\<open>1110xxxx 10xxxxxx 10xxxxxx\<close> or
  \<^verbatim>\<open>11110xxx 10xxxxxx 10xxxxxx 10xxxxxx\<close>, by the range it is in.
\<close>

definition scalar_value :: "u32 \<Rightarrow> bool" where
  "scalar_value c \<longleftrightarrow> c < 0x110000 \<and> \<not> surrogate c"

definition encodable :: "str \<Rightarrow> bool" where
  "encodable s \<longleftrightarrow> list_all scalar_value s"

definition encodable_option :: "str option \<Rightarrow> bool" where
  "encodable_option v \<longleftrightarrow> (case v of None \<Rightarrow> True | Some s \<Rightarrow> encodable s)"

definition UTF8_octets :: "u32 \<Rightarrow> byte list" where
  "UTF8_octets c =
     (if c \<le> 0x7F then [ucast c]
      else if c \<le> 0x7FF then [ucast (192 + c div 64), ucast (128 + c mod 64)]
      else if c \<le> 0xFFFF then
        [ucast (224 + c div 4096), ucast (128 + c div 64 mod 64), ucast (128 + c mod 64)]
      else
        [ucast (240 + c div 262144), ucast (128 + c div 4096 mod 64),
         ucast (128 + c div 64 mod 64), ucast (128 + c mod 64)])"

definition UTF8 :: "str \<Rightarrow> byte list" where
  "UTF8 s = concat (map UTF8_octets s)"

subsection \<open>SHA-256 (FIPS 180-4)\<close>

text \<open>
  Section 5.1.1, for a message of whole bytes: the bit 1 and seven bits 0 are the byte
  \<open>0x80\<close>; then the least number of zero bytes that brings the length to 56 modulo 64
  bytes (448 modulo 512 bits); then the length of the message in bits, as a 64-bit
  integer, most significant byte first.
\<close>

definition FIPS_zero_bytes :: "nat \<Rightarrow> nat" where
  "FIPS_zero_bytes n = (LEAST z. (n + 1 + z) mod 64 = 56)"

definition length_octets :: "64 word \<Rightarrow> byte list" where
  "length_octets l =
     [ucast (l div 2 ^ 56), ucast (l div 2 ^ 48), ucast (l div 2 ^ 40), ucast (l div 2 ^ 32),
      ucast (l div 2 ^ 24), ucast (l div 2 ^ 16), ucast (l div 2 ^ 8), ucast l]"

definition FIPS_pad :: "byte list \<Rightarrow> byte list" where
  "FIPS_pad m =
     m @ [0x80] @ replicate (FIPS_zero_bytes (length m)) 0 @ length_octets (of_nat (8 * length m))"

text \<open>
  Section 5.2.1: the padded message is parsed into blocks of 512 bits, block \<open>i\<close> into
  sixteen words of 32 bits, the first byte of a word being its most significant.
\<close>

definition be32 :: "byte \<Rightarrow> byte \<Rightarrow> byte \<Rightarrow> byte \<Rightarrow> u32" where
  "be32 b0 b1 b2 b3 = ucast b0 * 2 ^ 24 + ucast b1 * 2 ^ 16 + ucast b2 * 2 ^ 8 + ucast b3"

definition FIPS_block :: "byte list \<Rightarrow> nat \<Rightarrow> u32 list" where
  "FIPS_block bs i =
     map (\<lambda>j. be32 (bs ! (64 * i + 4 * j)) (bs ! (64 * i + 4 * j + 1))
                   (bs ! (64 * i + 4 * j + 2)) (bs ! (64 * i + 4 * j + 3))) [0..<16]"

text \<open>
  Section 6.2.2: the message schedule \<open>W\<^sub>t\<close> of a block, the 64 steps on the working
  variables with \<open>K\<^sub>t\<close> and \<open>W\<^sub>t\<close>, and the intermediate hash value, from \<open>H0\<close> over the
  blocks in order.
\<close>

function FIPS_W :: "u32 list \<Rightarrow> nat \<Rightarrow> u32" where
  "FIPS_W M t =
     (if t < 16 then M ! t
      else sigma1 (FIPS_W M (t - 2)) + FIPS_W M (t - 7)
           + sigma0 (FIPS_W M (t - 15)) + FIPS_W M (t - 16))"
  by pat_completeness auto
termination
  by (relation "measure snd") auto

declare FIPS_W.simps [simp del]

text \<open>The sixteen words of the schedule from step \<open>t\<close> on.\<close>

definition window :: "u32 list \<Rightarrow> nat \<Rightarrow> u32 list" where
  "window M t = map (FIPS_W M) [t..<t + 16]"

definition FIPS_rounds :: "u32 list \<Rightarrow> hash \<Rightarrow> hash" where
  "FIPS_rounds M H = fold (\<lambda>t s. round256 (K256 ! t) (FIPS_W M t) s) [0..<64] H"

definition SHA256 :: "byte list \<Rightarrow> hash" where
  "SHA256 m =
     fold (\<lambda>i H. hash_add H (FIPS_rounds (FIPS_block (FIPS_pad m) i) H))
       [0..<length (FIPS_pad m) div 64] H0"

text \<open>The digest is the eight words of the final hash value, each most significant byte first.\<close>

definition word_octets :: "u32 \<Rightarrow> byte list" where
  "word_octets w = [ucast (w div 2 ^ 24), ucast (w div 2 ^ 16), ucast (w div 2 ^ 8), ucast w]"

fun SHA256_digest :: "hash \<Rightarrow> byte list" where
  "SHA256_digest (Hash a b c d e f g h) = concat (map word_octets [a, b, c, d, e, f, g, h])"

subsection \<open>Lowercase hexadecimal\<close>

definition lowercase_hex :: "byte list \<Rightarrow> string" where
  "lowercase_hex bs =
     concat (map (\<lambda>b. [''0123456789abcdef'' ! (unat b div 16),
                        ''0123456789abcdef'' ! (unat b mod 16)]) bs)"

section \<open>The data model\<close>

text \<open>
  The three pydantic models and the mapped class. \<^verbatim>\<open>Optional[str]\<close> is
  \<^typ>\<open>str option\<close>. The columns \<^verbatim>\<open>name\<close> and \<^verbatim>\<open>description\<close> of \<^verbatim>\<open>DBItem\<close> are
  nullable (only the primary key is not), so a row can hold \<open>None\<close> in both.
\<close>

record Item =
  Item_id :: string
  Item_name :: str
  Item_description :: "str option"

record ItemCreate =
  ItemCreate_name :: str
  ItemCreate_description :: "str option"

record ItemUpdate =
  ItemUpdate_name :: "str option"
  ItemUpdate_description :: "str option"

record DBItem =
  DBItem_id :: string
  DBItem_name :: "str option"
  DBItem_description :: "str option"

text \<open>
  \<^verbatim>\<open>DBItem.__init__(self, name, description)\<close>: the object is made when \<open>generate_id\<close>
  returns.
\<close>

definition DBItem_init :: "str \<Rightarrow> str option \<Rightarrow> string \<Rightarrow> error + DBItem" where
  "DBItem_init name description now =
     (case generate_id name description now of
        Inl e \<Rightarrow> Inl e
      | Inr i \<Rightarrow>
          Inr \<lparr>DBItem_id = i, DBItem_name = Some name, DBItem_description = description\<rparr>)"

text \<open>
  \<^verbatim>\<open>Item(**db_item.__dict__)\<close>: the keys that are no field of \<^verbatim>\<open>Item\<close> are ignored, and
  the fields are validated. \<^verbatim>\<open>id\<close> and \<^verbatim>\<open>name\<close> are declared \<^verbatim>\<open>str\<close>, so \<open>None\<close> is
  refused for them; the id of a row is never \<open>None\<close>.
\<close>

definition Item_init :: "DBItem \<Rightarrow> error + Item" where
  "Item_init db_item =
     (case DBItem_name db_item of
        None \<Rightarrow> Inl ValidationError
      | Some name \<Rightarrow>
          Inr \<lparr>Item_id = DBItem_id db_item, Item_name = name,
               Item_description = DBItem_description db_item\<rparr>)"

text \<open>\<^verbatim>\<open>[Item(**db_item.__dict__) for db_item in db_items]\<close>: the first refusal ends it.\<close>

fun Item_list :: "DBItem list \<Rightarrow> error + Item list" where
  "Item_list [] = Inr []"
| "Item_list (db_item # db_items) =
     (case Item_init db_item of
        Inl e \<Rightarrow> Inl e
      | Inr it \<Rightarrow> (case Item_list db_items of Inl e \<Rightarrow> Inl e | Inr its \<Rightarrow> Inr (it # its)))"

section \<open>The session\<close>

text \<open>
  The table \<^verbatim>\<open>items\<close> is the list of its rows in storage order: an insert appends, an
  update changes a row in place, a delete removes it. Every request has a session of its
  own, so a handler sees the table as the last commit left it, and what it commits is the
  table the next request sees.
\<close>

type_synonym table = "DBItem list"

text \<open>
  The driver encodes a text that it binds to a statement, and raises as \<^verbatim>\<open>str.encode\<close>
  does when it cannot; \<open>None\<close> is bound as \<^verbatim>\<open>NULL\<close>. A statement that raises changes nothing.
\<close>

definition bind :: "str option \<Rightarrow> error + byte list option" where
  "bind v =
     (case v of
        None \<Rightarrow> Inr None
      | Some s \<Rightarrow> (case encode s of Inl e \<Rightarrow> Inl e | Inr bs \<Rightarrow> Inr (Some bs)))"

text \<open>\<^verbatim>\<open>db.query(DBItem).filter(DBItem.id == item_id).first()\<close>\<close>

definition query_first :: "string \<Rightarrow> table \<Rightarrow> DBItem option" where
  "query_first item_id db = find (\<lambda>r. DBItem_id r = item_id) db"

text \<open>\<^verbatim>\<open>db.query(DBItem).all()\<close>: a list, empty for an empty table, and never \<open>None\<close>.\<close>

definition query_all :: "table \<Rightarrow> DBItem list option" where
  "query_all db = Some db"

text \<open>\<^verbatim>\<open>db.add(db_item); db.commit()\<close>: the insert fails on a primary key that is taken.\<close>

definition add_commit :: "DBItem \<Rightarrow> table \<Rightarrow> error + table" where
  "add_commit db_item db =
     (case bind (DBItem_name db_item) of
        Inl e \<Rightarrow> Inl e
      | Inr n \<Rightarrow>
          (case bind (DBItem_description db_item) of
             Inl e \<Rightarrow> Inl e
           | Inr d \<Rightarrow>
               (if DBItem_id db_item \<in> set (map DBItem_id db) then Inl IntegrityError
                else Inr (db @ [db_item]))))"

text \<open>\<^verbatim>\<open>db.commit()\<close> of a changed row: \<^verbatim>\<open>UPDATE items SET ... WHERE id = ?\<close>.\<close>

definition update_commit :: "DBItem \<Rightarrow> table \<Rightarrow> error + table" where
  "update_commit db_item db =
     (case bind (DBItem_name db_item) of
        Inl e \<Rightarrow> Inl e
      | Inr n \<Rightarrow>
          (case bind (DBItem_description db_item) of
             Inl e \<Rightarrow> Inl e
           | Inr d \<Rightarrow>
               Inr (map (\<lambda>r. if DBItem_id r = DBItem_id db_item then db_item else r) db)))"

text \<open>\<^verbatim>\<open>db.delete(db_item); db.commit()\<close>: \<^verbatim>\<open>DELETE FROM items WHERE id = ?\<close>.\<close>

definition delete_commit :: "DBItem \<Rightarrow> table \<Rightarrow> table" where
  "delete_commit db_item db = filter (\<lambda>r. DBItem_id r \<noteq> DBItem_id db_item) db"

text \<open>\<^verbatim>\<open>db.refresh(db_item)\<close>: the row is read again by its primary key.\<close>

definition refresh :: "DBItem \<Rightarrow> table \<Rightarrow> error + DBItem" where
  "refresh db_item db =
     (case query_first (DBItem_id db_item) db of
        None \<Rightarrow> Inl InvalidRequestError
      | Some r \<Rightarrow> Inr r)"

section \<open>The handlers\<close>

text \<open>
  A handler takes the table and returns its response, an \<^typ>\<open>Item\<close> or the error it
  raised, with the table it leaves behind. \<open>create_item\<close> also takes the clock reading
  that \<open>generate_id\<close> renders.
\<close>

definition create_item :: "ItemCreate \<Rightarrow> string \<Rightarrow> table \<Rightarrow> (error + Item) \<times> table" where
  "create_item item now db =
     (case DBItem_init (ItemCreate_name item) (ItemCreate_description item) now of
        Inl e \<Rightarrow> (Inl e, db)
      | Inr db_item \<Rightarrow>
          (case add_commit db_item db of
             Inl e \<Rightarrow> (Inl e, db)
           | Inr db' \<Rightarrow>
               (case refresh db_item db' of
                  Inl e \<Rightarrow> (Inl e, db')
                | Inr r \<Rightarrow> (Item_init r, db'))))"

definition read_item :: "string \<Rightarrow> table \<Rightarrow> (error + Item) \<times> table" where
  "read_item item_id db =
     (case query_first item_id db of
        None \<Rightarrow> (Inl (HTTPException 404 ''Item not found''), db)
      | Some db_item \<Rightarrow> (Item_init db_item, db))"

definition read_all_items :: "table \<Rightarrow> (error + Item list) \<times> table" where
  "read_all_items db =
     (case query_all db of
        None \<Rightarrow> (Inl (HTTPException 404 ''Item not found''), db)
      | Some db_items \<Rightarrow> (Item_list db_items, db))"

text \<open>
  \<^verbatim>\<open>item.dict()\<close> of an \<^verbatim>\<open>ItemUpdate\<close> has its two declared fields as keys, in the order
  of their declaration, each with its value or \<open>None\<close>; any other key of the request body
  was dropped when the body was parsed. The loop assigns each to the row.
\<close>

datatype key = Key_name | Key_description

definition ItemUpdate_dict :: "ItemUpdate \<Rightarrow> (key \<times> str option) list" where
  "ItemUpdate_dict item =
     [(Key_name, ItemUpdate_name item), (Key_description, ItemUpdate_description item)]"

fun setattr :: "DBItem \<Rightarrow> key \<times> str option \<Rightarrow> DBItem" where
  "setattr db_item (Key_name, v) = db_item\<lparr>DBItem_name := v\<rparr>"
| "setattr db_item (Key_description, v) = db_item\<lparr>DBItem_description := v\<rparr>"

definition update_item :: "string \<Rightarrow> ItemUpdate \<Rightarrow> table \<Rightarrow> (error + Item) \<times> table" where
  "update_item item_id item db =
     (case query_first item_id db of
        None \<Rightarrow> (Inl (HTTPException 404 ''Item not found''), db)
      | Some db_item \<Rightarrow>
          (let db_item' = foldl setattr db_item (ItemUpdate_dict item)
           in case update_commit db_item' db of
                Inl e \<Rightarrow> (Inl e, db)
              | Inr db' \<Rightarrow>
                  (case refresh db_item' db' of
                     Inl e \<Rightarrow> (Inl e, db')
                   | Inr r \<Rightarrow> (Item_init r, db'))))"

text \<open>
  In \<open>delete_item\<close> the response is built after the commit, from the attributes that the
  deleted object still holds.
\<close>

definition delete_item :: "string \<Rightarrow> table \<Rightarrow> (error + Item) \<times> table" where
  "delete_item item_id db =
     (case query_first item_id db of
        None \<Rightarrow> (Inl (HTTPException 404 ''Item not found''), db)
      | Some db_item \<Rightarrow> (Item_init db_item, delete_commit db_item db))"

section \<open>Sequences of requests\<close>

text \<open>
  A run of create requests, each with its clock reading, and a run of delete requests.
  A run is \<open>None\<close> as soon as one request raises; otherwise it gives the responses in
  order and the table at the end.
\<close>

fun create_items :: "(ItemCreate \<times> string) list \<Rightarrow> table \<Rightarrow> (Item list \<times> table) option" where
  "create_items [] db = Some ([], db)"
| "create_items ((item, now) # reqs) db =
     (case create_item item now db of
        (Inl e, db') \<Rightarrow> None
      | (Inr it, db') \<Rightarrow>
          (case create_items reqs db' of
             None \<Rightarrow> None
           | Some (its, db'') \<Rightarrow> Some (it # its, db'')))"

fun delete_items :: "string list \<Rightarrow> table \<Rightarrow> (Item list \<times> table) option" where
  "delete_items [] db = Some ([], db)"
| "delete_items (item_id # ids) db =
     (case delete_item item_id db of
        (Inl e, db') \<Rightarrow> None
      | (Inr it, db') \<Rightarrow>
          (case delete_items ids db' of
             None \<Rightarrow> None
           | Some (its, db'') \<Rightarrow> Some (it # its, db'')))"

text \<open>The primary key holds when no two rows share an id.\<close>

definition primary_key :: "table \<Rightarrow> bool" where
  "primary_key db \<longleftrightarrow> distinct (map DBItem_id db)"

section \<open>The encoder gives the octets of RFC 3629\<close>

lemma or_plus:
  fixes x k :: u32
  assumes "x < 2 ^ n"
  shows "push_bit n k OR x = push_bit n k + x"
proof -
  have "take_bit n x = x"
    using less_mask_eq [OF assms] by (simp add: take_bit_eq_mask)
  then have x: "bit x m \<Longrightarrow> m < n" for m
    by (metis bit_take_bit_iff)
  have "push_bit n k + x = push_bit n k OR x"
    by (rule disjunctive_add) (auto simp: bit_push_bit_iff dest: x)
  then show ?thesis by simp
qed

lemma utf8_div_bound:
  fixes c :: u32
  shows "c < 0x800 \<Longrightarrow> c div 64 < 2 ^ 5"
    and "c < 0x10000 \<Longrightarrow> c div 4096 < 2 ^ 4"
    and "c < 0x110000 \<Longrightarrow> c div 262144 < 2 ^ 3"
  by (simp_all add: word_less_nat_alt unat_div) 

lemma utf8_mod_bound:
  fixes c :: u32
  shows "c mod 64 < 2 ^ 6"
  by (simp add: word_less_nat_alt unat_mod)

lemma and_0x3F: "c AND 0x3F = c mod 64" for c :: u32
  using word_mod_2p_is_mask [of 6 c] by (simp add: mask_eq_exp_minus_1)

lemma utf8_lead2: "0xC0 OR x = 192 + x" if "x < 2 ^ 5" for x :: u32
  using or_plus [OF that, of 6] by simp

lemma utf8_cont: "0x80 OR x = 128 + x" if "x < 2 ^ 6" for x :: u32
  using or_plus [OF that, of 2] by simp

lemma utf8_lead3: "0xE0 OR x = 224 + x" if "x < 2 ^ 4" for x :: u32
  using or_plus [OF that, of 14] by simp

lemma utf8_lead4: "0xF0 OR x = 240 + x" if "x < 2 ^ 3" for x :: u32
  using or_plus [OF that, of 30] by simp

lemma encode_char_scalar:
  assumes "scalar_value c"
  shows "encode_char c = Inr (UTF8_octets c)"
proof -
  have c: "c < 0x110000" "\<not> surrogate c"
    using assms by (simp_all add: scalar_value_def)
  consider "c < 0x80" | "0x80 \<le> c" "c < 0x800" | "0x800 \<le> c" "c < 0x10000" | "0x10000 \<le> c"
    by fastforce
  then show ?thesis
  proof cases
    case 1
    then have "c \<le> 0x7F"
      by (simp add: word_less_nat_alt word_le_nat_alt)
    with 1 show ?thesis
      by (simp add: encode_char_def UTF8_octets_def)
  next
    case 2
    then have r: "\<not> c < 0x80" "\<not> c \<le> 0x7F" "c \<le> 0x7FF"
      by (simp_all add: word_less_nat_alt word_le_nat_alt)
    show ?thesis
      using 2 r
      by (simp add: encode_char_def UTF8_octets_def drop_bit_eq_div and_0x3F
          utf8_lead2 [OF utf8_div_bound(1)] utf8_cont [OF utf8_mod_bound])
  next
    case 3
    then have r: "\<not> c < 0x80" "\<not> c \<le> 0x7F" "\<not> c < 0x800" "\<not> c \<le> 0x7FF" "c \<le> 0xFFFF"
      by (simp_all add: word_less_nat_alt word_le_nat_alt)
    have d: "drop_bit 12 c = c div 4096" "drop_bit 6 c = c div 64"
      by (simp_all add: drop_bit_eq_div)
    show ?thesis
      using 3 r c
      by (simp add: encode_char_def UTF8_octets_def d and_0x3F
          utf8_lead3 [OF utf8_div_bound(2)] utf8_cont [OF utf8_mod_bound])
  next
    case 4
    then have r: "\<not> c < 0x80" "\<not> c \<le> 0x7F" "\<not> c < 0x800" "\<not> c \<le> 0x7FF"
      "\<not> c < 0x10000" "\<not> c \<le> 0xFFFF"
      by (simp_all add: word_less_nat_alt word_le_nat_alt)
    have s: "\<not> surrogate c"
      by (rule c)
    have d: "drop_bit 18 c = c div 262144" "drop_bit 12 c = c div 4096" "drop_bit 6 c = c div 64"
      by (simp_all add: drop_bit_eq_div)
    show ?thesis
      using r c
      by (simp add: encode_char_def UTF8_octets_def d and_0x3F
          utf8_lead4 [OF utf8_div_bound(3)] utf8_cont [OF utf8_mod_bound])
  qed
qed

lemma encode_char_not_scalar:
  assumes "\<not> scalar_value c"
  shows "encode_char c = Inl UnicodeEncodeError"
proof (cases "surrogate c")
  case True
  then have "\<not> c < 0x80" "\<not> c < 0x800"
    by (simp_all add: surrogate_def word_less_nat_alt word_le_nat_alt)
  with True show ?thesis
    by (simp add: encode_char_def)
next
  case False
  with assms have "\<not> c < 0x110000"
    by (simp add: scalar_value_def)
  then have "\<not> c < 0x80" "\<not> c < 0x800" "\<not> c < 0x10000"
    by (simp_all add: word_less_nat_alt)
  with False \<open>\<not> c < 0x110000\<close> show ?thesis
    by (simp add: encode_char_def)
qed

lemma encode_encodable: "encodable s \<Longrightarrow> encode s = Inr (UTF8 s)"
  by (induction s) (simp_all add: encodable_def UTF8_def encode_char_scalar)

lemma encode_not_encodable: "\<not> encodable s \<Longrightarrow> encode s = Inl UnicodeEncodeError"
proof (induction s)
  case Nil
  then show ?case by (simp add: encodable_def)
next
  case (Cons c cs)
  show ?case
  proof (cases "scalar_value c")
    case True
    with Cons.prems have "\<not> encodable cs"
      by (simp add: encodable_def)
    then show ?thesis
      using True by (simp add: Cons.IH encode_char_scalar)
  next
    case False
    then show ?thesis
      by (simp add: encode_char_not_scalar)
  qed
qed

lemma encodable_append: "encodable (xs @ ys) \<longleftrightarrow> encodable xs \<and> encodable ys"
  by (simp add: encodable_def)

lemma of_char_less_256: "(of_char c :: u32) < 256"
proof -
  have "take_bit 32 (of_char c :: nat) < 256"
    by (rule le_less_trans [OF take_bit_nat_less_eq_self nat_of_char_less_256])
  then have "(of_nat (of_char c) :: u32) < of_nat 256"
    by (simp only: of_nat_word_less_iff) simp
  then show ?thesis
    by (simp add: of_nat_of_char)
qed

lemma scalar_of_char: "scalar_value (of_char c)"
proof -
  have "unat (of_char c :: u32) < 256"
    using of_char_less_256 [of c] by (simp add: word_less_nat_alt)
  then show ?thesis
    by (simp add: scalar_value_def surrogate_def word_less_nat_alt word_le_nat_alt)
qed

lemma encodable_str_of: "encodable (str_of s)"
  by (induction s) (simp_all add: encodable_def str_of_def scalar_of_char)

section \<open>The digest is the SHA-256 of FIPS 180-4\<close>

lemma length_be_bytes: "length (be_bytes n x) = n"
  by (simp add: be_bytes_def)

text \<open>The padded message is a whole number of 64-byte blocks.\<close>

lemma pad_arith: "(n + 1 + (119 - n mod 64) mod 64 + 8) mod 64 = 0" for n :: nat
proof -
  obtain q r where n: "n = 64 * q + r" and r: "r < 64" and rm: "n mod 64 = r"
    by (metis mod_less_divisor mult_div_mod_eq zero_less_numeral)
  have "(119 - r) mod 64 = (if r \<le> 55 then 55 - r else 119 - r)"
    using r by (auto simp: mod_if)
  then have "(r + 1 + (119 - r) mod 64 + 8) mod 64 = 0"
    using r by (auto simp: mod_if)
  moreover have "64 * q + r + 1 + (119 - r) mod 64 + 8 = 64 * q + (r + 1 + (119 - r) mod 64 + 8)"
    by simp
  ultimately have "(64 * q + r + 1 + (119 - r) mod 64 + 8) mod 64 = 0"
    by (simp only: mod_mult_self4)
  then show ?thesis
    unfolding rm unfolding n .
qed

lemma length_pad: "length (pad m) mod 64 = 0"
proof -
  have "length (pad m) = length m + 1 + (119 - length m mod 64) mod 64 + 8"
    by (simp add: pad_def length_be_bytes)
  then show ?thesis
    by (simp only: pad_arith)
qed

lemma mod_64_shift: "(n + k) mod 64 = (n mod 64 + k) mod 64" for n k :: nat
  by (simp add: mod_add_left_eq)

lemma zeros_closed: "(119 - r) mod 64 = (if r \<le> 55 then 55 - r else 119 - r)" if "r < 64" for r :: nat
  using that by (auto simp: mod_if)

lemma pad_sat: "(n + 1 + (119 - n mod 64) mod 64) mod 64 = 56" for n :: nat
proof -
  let ?r = "n mod 64"
  let ?z = "(119 - ?r) mod 64"
  have r: "?r < 64" by simp
  have "?r + (1 + ?z) = 56 \<or> ?r + (1 + ?z) = 120"
    using r by (simp add: zeros_closed)
  then have "(?r + (1 + ?z)) mod 64 = 56"
    by auto
  moreover have "(n + (1 + ?z)) mod 64 = (?r + (1 + ?z)) mod 64"
    by (rule mod_64_shift)
  moreover have "n + 1 + ?z = n + (1 + ?z)"
    by simp
  ultimately show ?thesis
    by (simp only:)
qed

lemma pad_min:
  fixes n y :: nat
  assumes "(n + 1 + y) mod 64 = 56"
  shows "(119 - n mod 64) mod 64 \<le> y"
proof (rule ccontr)
  let ?r = "n mod 64"
  assume "\<not> (119 - ?r) mod 64 \<le> y"
  then have y: "y < (119 - ?r) mod 64" by simp
  have r: "?r < 64" by simp
  have "(n + (1 + y)) mod 64 = (?r + (1 + y)) mod 64"
    by (rule mod_64_shift)
  moreover have "n + 1 + y = n + (1 + y)"
    by simp
  ultimately have m: "(?r + (1 + y)) mod 64 = 56"
    using assms by (simp only:)
  show False
  proof (cases "?r \<le> 55")
    case True
    with y r have s: "?r + (1 + y) < 56"
      by (simp add: zeros_closed)
    then have "(?r + (1 + y)) mod 64 = ?r + (1 + y)"
      by simp
    with m s show False by simp
  next
    case False
    with y r have lt: "?r + (1 + y) < 120" and ge: "57 \<le> ?r + (1 + y)"
      by (simp_all add: zeros_closed)
    show False
    proof (cases "?r + (1 + y) < 64")
      case True
      then have "(?r + (1 + y)) mod 64 = ?r + (1 + y)" by simp
      with m ge show False by simp
    next
      case False
      then have "(?r + (1 + y)) mod 64 = (?r + (1 + y) - 64) mod 64"
        by (simp add: le_mod_geq)
      also have "\<dots> = ?r + (1 + y) - 64"
        using lt by simp
      finally show False
        using m lt by simp
    qed
  qed
qed

lemma FIPS_zero_bytes_eq: "FIPS_zero_bytes n = (119 - n mod 64) mod 64"
  unfolding FIPS_zero_bytes_def
  by (rule Least_equality) (simp_all only: pad_sat pad_min)

lemma upt_8: "[0..<8] = [0, 1, 2, 3, 4, 5, 6, 7]"
  by code_simp

lemma upt_4: "[0..<4] = [0, 1, 2, 3]"
  by code_simp

lemma length_octets_eq: "be_bytes 8 l = length_octets l" for l :: "64 word"
  by (simp add: be_bytes_def length_octets_def drop_bit_eq_div upt_8)

lemma pad_FIPS: "pad m = FIPS_pad m"
  by (simp add: pad_def FIPS_pad_def FIPS_zero_bytes_eq length_octets_eq)

lemma word_octets_eq: "be_bytes 4 w = word_octets w" for w :: u32
  by (simp add: be_bytes_def word_octets_def drop_bit_eq_div upt_4)

lemma digest_FIPS: "digest H = SHA256_digest H"
  by (cases H) (simp add: word_octets_eq)

lemma hex_byte_eq:
  "hex_byte b = [''0123456789abcdef'' ! (unat b div 16), ''0123456789abcdef'' ! (unat b mod 16)]"
proof -
  have "unat (drop_bit 4 b) = unat b div 16"
    by (simp add: drop_bit_eq_div unat_div)
  moreover have "b AND 0x0F = b mod 16"
    using word_mod_2p_is_mask [of 4 b] by (simp add: mask_eq_exp_minus_1)
  then have "unat (b AND 0x0F) = unat b mod 16"
    by (simp add: unat_mod)
  ultimately show ?thesis
    by (simp add: hex_byte_def hexdigit_def)
qed

lemma hexdigest_FIPS: "hexdigest H = lowercase_hex (SHA256_digest H)"
proof -
  have "hex_byte = (\<lambda>b. [''0123456789abcdef'' ! (unat b div 16), ''0123456789abcdef'' ! (unat b mod 16)])"
    by (rule ext) (rule hex_byte_eq)
  then show ?thesis
    by (simp add: hexdigest_def lowercase_hex_def digest_FIPS)
qed

lemma ucast_byte_less: "(ucast b :: u32) < 2 ^ 8" for b :: byte
proof -
  have "unat b < 2 ^ 8"
    using unsigned_less [of b, where ?'a = nat] by simp
  then have "take_bit 32 (unat b) < 2 ^ 8"
    by (rule le_less_trans [OF take_bit_nat_less_eq_self])
  then have "unat (ucast b :: u32) < 2 ^ 8"
    by (simp only: unsigned_ucast_eq) simp
  then show ?thesis
    by (simp add: word_less_nat_alt)
qed

lemma be_word_step: "push_bit 8 w OR ucast b = w * 256 + ucast b" for w :: u32 and b :: byte
  using or_plus [OF ucast_byte_less, where k = w and b1 = b] by (simp add: push_bit_eq_mult)

lemma be_word_be32: "be_word [b0, b1, b2, b3] = be32 b0 b1 b2 b3"
  by (simp add: be_word_def be32_def be_word_step algebra_simps)

lemma take_4_drop:
  assumes "k + 4 \<le> length xs"
  shows "take 4 (drop k xs) = [xs ! k, xs ! (k + 1), xs ! (k + 2), xs ! (k + 3)]"
proof -
  have d: "drop i xs = xs ! i # drop (Suc i) xs" if "i < length xs" for i
    using that by (rule Cons_nth_drop_Suc [symmetric])
  have "take 4 (drop k xs) = take (Suc (Suc (Suc (Suc 0)))) (drop k xs)"
    by (simp add: numeral_eq_Suc)
  also have "\<dots> = [xs ! k, xs ! Suc k, xs ! Suc (Suc k), xs ! Suc (Suc (Suc k))]"
    using assms by (simp add: d)
  finally show ?thesis
    by (simp add: numeral_eq_Suc)
qed

lemma block_words_FIPS:
  assumes "i < length bs div 64"
  shows "block_words (take 64 (drop (64 * i) bs)) = FIPS_block bs i"
proof -
  have len: "64 * i + 64 \<le> length bs"
    using assms by simp
  have "be_word (take 4 (drop (4 * j) (take 64 (drop (64 * i) bs))))
      = be32 (bs ! (64 * i + 4 * j)) (bs ! (64 * i + 4 * j + 1))
             (bs ! (64 * i + 4 * j + 2)) (bs ! (64 * i + 4 * j + 3))"
    if "j < 16" for j
  proof -
    have "take 4 (drop (4 * j) (take 64 (drop (64 * i) bs))) = take 4 (drop (64 * i + 4 * j) bs)"
      using that by (simp add: drop_take min_def add.commute)
    also have "\<dots> = [bs ! (64 * i + 4 * j), bs ! (64 * i + 4 * j + 1),
                       bs ! (64 * i + 4 * j + 2), bs ! (64 * i + 4 * j + 3)]"
      using that len by (intro take_4_drop) simp
    finally show ?thesis
      by (simp add: be_word_be32)
  qed
  then show ?thesis
    by (simp add: block_words_def FIPS_block_def)
qed

lemma window_0: "length M = 16 \<Longrightarrow> window M 0 = M"
  by (auto simp: window_def FIPS_W.simps intro: nth_equalityI)

lemma hd_window: "hd (window M t) = FIPS_W M t"
  by (simp add: window_def upt_rec [of t])

lemma FIPS_W_step:
  "FIPS_W M (t + 16) = sigma1 (FIPS_W M (t + 14)) + FIPS_W M (t + 9)
       + sigma0 (FIPS_W M (t + 1)) + FIPS_W M t"
  by (subst FIPS_W.simps) (simp add: add.commute)

lemma next_window: "next_window (window M t) = window M (Suc t)"
proof -
  have n: "window M t ! i = FIPS_W M (t + i)" if "i < 16" for i
    using that by (simp add: window_def)
  have "tl (window M t) = map (FIPS_W M) [Suc t..<t + 16]"
    by (simp add: window_def upt_rec [of t] )
  moreover have "[Suc t..<Suc (t + 16)] = [Suc t..<t + 16] @ [t + 16]"
    by (rule upt_Suc_append) simp
  ultimately show ?thesis
    by (simp add: next_window_def n FIPS_W_step window_def [of M "Suc t"])
qed

lemma rounds_fold:
  "rounds ks (window M t) s
     = fold (\<lambda>i s. round256 (ks ! (i - t)) (FIPS_W M i) s) [t..<t + length ks] s"
proof (induction ks arbitrary: t s)
  case Nil
  then show ?case by simp
next
  case (Cons k ks)
  have "[t..<Suc (t + length ks)] = t # [Suc t..<Suc (t + length ks)]"
    by (rule upt_conv_Cons) simp
  then have "[t..<t + length (k # ks)] = t # [Suc t..<Suc t + length ks]"
    by simp
  moreover have "fold (\<lambda>i s. round256 ((k # ks) ! (i - t)) (FIPS_W M i) s) [Suc t..<Suc t + length ks] s'
      = fold (\<lambda>i s. round256 (ks ! (i - Suc t)) (FIPS_W M i) s) [Suc t..<Suc t + length ks] s'" for s'
  proof (rule fold_cong)
    fix i assume "i \<in> set [Suc t..<Suc t + length ks]"
    then have "i - t = Suc (i - Suc t)"
      by auto
    then show "round256 ((k # ks) ! (i - t)) (FIPS_W M i) = round256 (ks ! (i - Suc t)) (FIPS_W M i)"
      by simp
  qed simp_all
  ultimately show ?case
    by (simp add: next_window hd_window Cons.IH)
qed

lemma length_K256: "length K256 = 64"
  by (simp add: K256_def)

lemma rounds_FIPS: "length M = 16 \<Longrightarrow> rounds K256 M H = FIPS_rounds M H"
  using rounds_fold [of K256 M 0 H] by (simp add: window_0 length_K256 FIPS_rounds_def)

lemma length_FIPS_block: "length (FIPS_block bs i) = 16"
  by (simp add: FIPS_block_def)

lemma compress_FIPS:
  assumes "i < length bs div 64"
  shows "compress H (take 64 (drop (64 * i) bs)) = hash_add H (FIPS_rounds (FIPS_block bs i) H)"
  by (simp add: compress_def block_words_FIPS [OF assms] rounds_FIPS length_FIPS_block)

lemma sha256_FIPS: "sha256 m = SHA256 m"
proof -
  let ?bs = "FIPS_pad m"
  have "sha256 m = fold (\<lambda>i H. compress H (take 64 (drop (64 * i) ?bs))) [0..<length ?bs div 64] H0"
    by (simp add: sha256_def blocks_def pad_FIPS foldl_conv_fold fold_map comp_def)
  also have "\<dots> = fold (\<lambda>i H. hash_add H (FIPS_rounds (FIPS_block ?bs i) H)) [0..<length ?bs div 64] H0"
    by (rule fold_cong) (auto simp: compress_FIPS)
  finally show ?thesis
    by (simp add: SHA256_def)
qed

section \<open>Properties of the identifier generator\<close>

lemma length_SHA256_digest: "length (SHA256_digest H) = 32"
  by (cases H) (simp add: word_octets_def)

lemma length_lowercase_hex: "length (lowercase_hex bs) = 2 * length bs"
  by (induction bs) (simp_all add: lowercase_hex_def)

lemma length_hexdigest: "length (hexdigest H) = 64"
  by (simp add: hexdigest_FIPS length_lowercase_hex length_SHA256_digest)

lemma hexdigit_lower_hex: "n < 16 \<Longrightarrow> hexdigit n \<in> set ''0123456789abcdef''"
  unfolding hexdigit_def by (rule nth_mem) simp

lemma lower_hex_Nil: "lower_hex []"
  by (simp add: lower_hex_def)

lemma lower_hex_append: "lower_hex (xs @ ys) \<longleftrightarrow> lower_hex xs \<and> lower_hex ys"
  by (simp add: lower_hex_def)

lemma lower_hex_pair:
  "lower_hex [''0123456789abcdef'' ! (unat b div 16), ''0123456789abcdef'' ! (unat b mod 16)]"
  for b :: byte
proof -
  have "unat b < 256"
    using unsigned_less [of b, where ?'a = nat] by simp
  then have hi: "unat b div 16 < 16" and lo: "unat b mod 16 < 16"
    by simp_all
  show ?thesis
    using hexdigit_lower_hex [OF hi] hexdigit_lower_hex [OF lo]
    by (simp add: lower_hex_def hexdigit_def)
qed

lemma lower_hex_lowercase_hex: "lower_hex (lowercase_hex bs)"
proof (induction bs)
  case Nil
  then show ?case by (simp add: lowercase_hex_def lower_hex_Nil)
next
  case (Cons b bs)
  have "lowercase_hex (b # bs)
      = [''0123456789abcdef'' ! (unat b div 16), ''0123456789abcdef'' ! (unat b mod 16)]
        @ lowercase_hex bs"
    by (simp add: lowercase_hex_def)
  then show ?case
    using Cons.IH lower_hex_pair [of b] by (simp only: lower_hex_append)
qed

lemma lower_hex_hexdigest: "lower_hex (hexdigest H)"
  by (simp add: hexdigest_FIPS lower_hex_lowercase_hex)

lemma encodable_format_str: "encodable (format_str v) \<longleftrightarrow> encodable_option v"
  by (cases v) (simp_all add: format_str_def encodable_option_def encodable_str_of)

lemma encodable_raw_data:
  "encodable (name @ str_of ''-'' @ format_str description @ str_of ''-'' @ str_of now)
     \<longleftrightarrow> encodable name \<and> encodable_option description"
  by (simp only: encodable_append encodable_str_of encodable_format_str) simp

lemma generate_id_encodable:
  assumes "encodable name" and "encodable_option description"
  shows "generate_id name description now
           = Inr (lowercase_hex (SHA256_digest (SHA256 (UTF8
                (name @ str_of ''-'' @ format_str description @ str_of ''-'' @ str_of now)))))"
proof -
  have "encodable (name @ str_of ''-'' @ format_str description @ str_of ''-'' @ str_of now)"
    using assms unfolding encodable_raw_data by (rule conjI)
  then have "encode (name @ str_of ''-'' @ format_str description @ str_of ''-'' @ str_of now)
      = Inr (UTF8 (name @ str_of ''-'' @ format_str description @ str_of ''-'' @ str_of now))"
    by (rule encode_encodable)
  then show ?thesis
    by (simp add: generate_id_def Let_def sha256_FIPS hexdigest_FIPS)
qed

lemma generate_id_not_encodable:
  assumes "\<not> (encodable name \<and> encodable_option description)"
  shows "generate_id name description now = Inl UnicodeEncodeError"
proof -
  have "\<not> encodable (name @ str_of ''-'' @ format_str description @ str_of ''-'' @ str_of now)"
    using assms unfolding encodable_raw_data .
  then have "encode (name @ str_of ''-'' @ format_str description @ str_of ''-'' @ str_of now)
      = Inl UnicodeEncodeError"
    by (rule encode_not_encodable)
  then show ?thesis
    by (simp add: generate_id_def Let_def)
qed

lemma generate_id_Inr:
  assumes "generate_id name description now = Inr i"
  shows "encodable name" and "encodable_option description"
    and "length i = 64" and "lower_hex i"
proof -
  have e: "encodable name \<and> encodable_option description"
    using assms generate_id_not_encodable [of name description now] by auto
  then show "encodable name" and "encodable_option description"
    by simp_all
  have "i = lowercase_hex (SHA256_digest (SHA256 (UTF8
                (name @ str_of ''-'' @ format_str description @ str_of ''-'' @ str_of now))))"
    using assms e by (simp add: generate_id_encodable)
  then show "length i = 64" and "lower_hex i"
    by (simp_all add: length_lowercase_hex length_SHA256_digest lower_hex_lowercase_hex)
qed

lemma generate_id_Inl: "generate_id name description now = Inl e \<Longrightarrow> e = UnicodeEncodeError"
  using generate_id_encodable [of name description now]
    generate_id_not_encodable [of name description now]
  by (cases "encodable name \<and> encodable_option description") auto

text \<open>
  Known answers, evaluated from the definitions: the standard's test vector for the message
  \<^verbatim>\<open>abc\<close>, and three ids as \<^verbatim>\<open>hashlib\<close> gives them. Two are the ids of one name and
  description at two clock readings, and they differ. The third is the id of a name with
  characters of one, two, three and four bytes (\<open>U+0066\<close>, \<open>U+00E9\<close>, \<open>U+20AC\<close>,
  \<open>U+1F600\<close>) and a description that makes the message two blocks long.
\<close>

lemma sha256_abc:
  "hexdigest (sha256 [0x61, 0x62, 0x63])
     = ''ba7816bf8f01cfea414140de5dae2223b00361a396177a9cb410ff61f20015ad''"
  by code_simp

lemma generate_id_foo_bar_0:
  "generate_id (str_of ''foo'') (Some (str_of ''bar'')) ''1700000000.5''
     = Inr ''bd76ec70372dae973ac0da1d385eb86c57ffd85170438c5cbfe0e0191275e623''"
  by code_simp

lemma generate_id_foo_bar_1:
  "generate_id (str_of ''foo'') (Some (str_of ''bar'')) ''1700000001.5''
     = Inr ''ea812426545498dafd5c222420ba2a7f8856ce940cf32b36e79f0d902e03af8c''"
  by code_simp

lemma generate_id_foo_bar_differ:
  "generate_id (str_of ''foo'') (Some (str_of ''bar'')) ''1700000000.5''
     \<noteq> generate_id (str_of ''foo'') (Some (str_of ''bar'')) ''1700000001.5''"
  by (simp add: generate_id_foo_bar_0 generate_id_foo_bar_1)

lemma generate_id_two_blocks:
  "generate_id [0x66, 0xE9, 0x20AC, 0x1F600]
      (Some (str_of ''a description that is long enough for two blocks'')) ''1700000001.25''
     = Inr ''e6f5e07868231c9e47daed88833c9b23b592f7a38d0a33e09a1262b286bc7f74''"
  by code_simp

lemma encodable_four_lengths: "encodable [0x66, 0xE9, 0x20AC, 0x1F600]"
  by (simp add: encodable_def scalar_value_def surrogate_def)

lemma not_encodable_surrogate: "\<not> encodable [0xD800]"
  by (simp add: encodable_def scalar_value_def surrogate_def)

text \<open>
  C8, as amended. For every name and description made of scalar values, that is with no
  lone surrogate, and every clock reading, \<open>generate_id\<close> returns an id: the lowercase
  hexadecimal text, 64 characters long, of the SHA-256 digest (FIPS 180-4) of the UTF-8
  octets (RFC 3629) of \<^verbatim>\<open>"{name}-{description}-{now}"\<close>. On the two-block message above it
  is the id that \<^verbatim>\<open>hashlib\<close> gives.
\<close>

theorem generate_id_sha256_hex:
  assumes "encodable name" and "encodable description"
  shows "(\<exists>i. generate_id name (Some description) now = Inr i
            \<and> i = lowercase_hex (SHA256_digest (SHA256 (UTF8
                    (name @ str_of ''-'' @ description @ str_of ''-'' @ str_of now))))
            \<and> length i = 64 \<and> lower_hex i)
       \<and> generate_id [0x66, 0xE9, 0x20AC, 0x1F600]
            (Some (str_of ''a description that is long enough for two blocks'')) ''1700000001.25''
          = Inr ''e6f5e07868231c9e47daed88833c9b23b592f7a38d0a33e09a1262b286bc7f74''"
proof (intro conjI)
  have o: "encodable_option (Some description)"
    using assms(2) by (simp add: encodable_option_def)
  have g: "generate_id name (Some description) now
      = Inr (lowercase_hex (SHA256_digest (SHA256 (UTF8
                    (name @ str_of ''-'' @ description @ str_of ''-'' @ str_of now)))))"
    using generate_id_encodable [OF assms(1) o, of now] by (simp add: format_str_def)
  show "\<exists>i. generate_id name (Some description) now = Inr i
            \<and> i = lowercase_hex (SHA256_digest (SHA256 (UTF8
                    (name @ str_of ''-'' @ description @ str_of ''-'' @ str_of now))))
            \<and> length i = 64 \<and> lower_hex i"
    using g generate_id_Inr(3,4) [OF g] by simp
  show "generate_id [0x66, 0xE9, 0x20AC, 0x1F600]
            (Some (str_of ''a description that is long enough for two blocks'')) ''1700000001.25''
          = Inr ''e6f5e07868231c9e47daed88833c9b23b592f7a38d0a33e09a1262b286bc7f74''"
    by (rule generate_id_two_blocks)
qed

theorem generate_id_sha256_hex_witness:
  "encodable [0x66, 0xE9, 0x20AC, 0x1F600]
   \<and> encodable (str_of ''a description that is long enough for two blocks'')
   \<and> lowercase_hex (SHA256_digest (SHA256 (UTF8
        ([0x66, 0xE9, 0x20AC, 0x1F600] @ str_of ''-''
          @ str_of ''a description that is long enough for two blocks'' @ str_of ''-''
          @ str_of ''1700000001.25''))))
      = ''e6f5e07868231c9e47daed88833c9b23b592f7a38d0a33e09a1262b286bc7f74''"
  using generate_id_sha256_hex [OF encodable_four_lengths encodable_str_of,
      of "''a description that is long enough for two blocks''" "''1700000001.25''"]
    encodable_four_lengths
    encodable_str_of [of "''a description that is long enough for two blocks''"]
  by (simp only: generate_id_two_blocks) simp

text \<open>
  The claim as it is written, for any string inputs, fails on a name that holds a lone
  surrogate: \<^verbatim>\<open>encode\<close> raises.
\<close>

theorem generate_id_lone_surrogate_counterexample:
  "generate_id [0xD800] (Some (str_of ''bar'')) ''1700000000.5'' = Inl UnicodeEncodeError"
  by (rule generate_id_not_encodable) (simp add: not_encodable_surrogate)

section \<open>The session and the handlers, case by case\<close>

subsection \<open>Binding\<close>

lemma bind_encodable: "encodable_option v \<Longrightarrow> \<exists>b. bind v = Inr b"
  by (cases v) (simp_all add: bind_def encodable_option_def encode_encodable)

lemma bind_not_encodable: "\<not> encodable_option v \<Longrightarrow> bind v = Inl UnicodeEncodeError"
  by (cases v) (simp_all add: bind_def encodable_option_def encode_not_encodable)

lemma add_commit_eq:
  assumes "encodable_option (DBItem_name r)" and "encodable_option (DBItem_description r)"
  shows "add_commit r db =
           (if DBItem_id r \<in> set (map DBItem_id db) then Inl IntegrityError else Inr (db @ [r]))"
  using bind_encodable [OF assms(1)] bind_encodable [OF assms(2)]
  by (auto simp: add_commit_def)

lemma update_commit_encodable:
  assumes "encodable_option (DBItem_name r)" and "encodable_option (DBItem_description r)"
  shows "update_commit r db = Inr (map (\<lambda>x. if DBItem_id x = DBItem_id r then r else x) db)"
  using bind_encodable [OF assms(1)] bind_encodable [OF assms(2)]
  by (auto simp: update_commit_def)

lemma update_commit_not_encodable:
  assumes "\<not> (encodable_option (DBItem_name r) \<and> encodable_option (DBItem_description r))"
  shows "update_commit r db = Inl UnicodeEncodeError"
proof (cases "encodable_option (DBItem_name r)")
  case True
  with assms have "\<not> encodable_option (DBItem_description r)" by simp
  then show ?thesis
    using bind_encodable [OF True] by (auto simp: update_commit_def bind_not_encodable)
next
  case False
  then show ?thesis
    by (simp add: update_commit_def bind_not_encodable)
qed

lemma update_commit_Inr:
  "update_commit r db = Inr db' \<Longrightarrow>
     db' = map (\<lambda>x. if DBItem_id x = DBItem_id r then r else x) db"
  using update_commit_encodable [of r db] update_commit_not_encodable [of r db]
  by (cases "encodable_option (DBItem_name r) \<and> encodable_option (DBItem_description r)") auto

lemma update_commit_Inl: "update_commit r db = Inl e \<Longrightarrow> e = UnicodeEncodeError"
  using update_commit_encodable [of r db] update_commit_not_encodable [of r db]
  by (cases "encodable_option (DBItem_name r) \<and> encodable_option (DBItem_description r)") auto

subsection \<open>Queries\<close>

lemma query_first_None: "query_first item_id db = None \<longleftrightarrow> item_id \<notin> set (map DBItem_id db)"
  by (induction db) (auto simp: query_first_def)

lemma query_first_Some: "query_first item_id db = Some r \<Longrightarrow> r \<in> set db \<and> DBItem_id r = item_id"
  by (induction db) (auto simp: query_first_def split: if_splits)

lemma query_first_present:
  "item_id \<in> set (map DBItem_id db) \<Longrightarrow> \<exists>r. query_first item_id db = Some r"
  using query_first_None [of item_id db] by (cases "query_first item_id db") auto

lemma query_first_append_new:
  "item_id \<notin> set (map DBItem_id db) \<Longrightarrow> DBItem_id r = item_id \<Longrightarrow> query_first item_id (db @ [r]) = Some r"
  by (induction db) (auto simp: query_first_def)

lemma query_first_changed:
  "query_first (DBItem_id r') db = Some r \<Longrightarrow>
     query_first (DBItem_id r') (map (\<lambda>x. if DBItem_id x = DBItem_id r' then r' else x) db) = Some r'"
  by (induction db) (auto simp: query_first_def split: if_splits)

lemma map_id_changed:
  "map DBItem_id (map (\<lambda>x. if DBItem_id x = DBItem_id r' then r' else x) db) = map DBItem_id db"
  by (induction db) auto

subsection \<open>Handlers\<close>

lemma create_item_fresh:
  assumes "generate_id (ItemCreate_name item) (ItemCreate_description item) now = Inr i"
    and "i \<notin> set (map DBItem_id db)"
  shows "create_item item now db =
           (Inr \<lparr>Item_id = i, Item_name = ItemCreate_name item,
                 Item_description = ItemCreate_description item\<rparr>,
            db @ [\<lparr>DBItem_id = i, DBItem_name = Some (ItemCreate_name item),
                   DBItem_description = ItemCreate_description item\<rparr>])"
proof -
  let ?row = "\<lparr>DBItem_id = i, DBItem_name = Some (ItemCreate_name item),
               DBItem_description = ItemCreate_description item\<rparr>"
  have e: "encodable_option (DBItem_name ?row)" "encodable_option (DBItem_description ?row)"
    using generate_id_Inr(1,2) [OF assms(1)] by (simp_all add: encodable_option_def)
  have "add_commit ?row db = Inr (db @ [?row])"
    using assms(2) by (simp add: add_commit_eq [OF e])
  moreover have "query_first i (db @ [?row]) = Some ?row"
    using assms(2) by (rule query_first_append_new) simp
  ultimately show ?thesis
    using assms(1) by (simp add: create_item_def DBItem_init_def refresh_def Item_init_def)
qed

lemma create_item_taken:
  assumes "generate_id (ItemCreate_name item) (ItemCreate_description item) now = Inr i"
    and "i \<in> set (map DBItem_id db)"
  shows "create_item item now db = (Inl IntegrityError, db)"
proof -
  let ?row = "\<lparr>DBItem_id = i, DBItem_name = Some (ItemCreate_name item),
               DBItem_description = ItemCreate_description item\<rparr>"
  have e: "encodable_option (DBItem_name ?row)" "encodable_option (DBItem_description ?row)"
    using generate_id_Inr(1,2) [OF assms(1)] by (simp_all add: encodable_option_def)
  have "add_commit ?row db = Inl IntegrityError"
    using assms(2) by (simp add: add_commit_eq [OF e])
  then show ?thesis
    using assms(1) by (simp add: create_item_def DBItem_init_def)
qed

lemma create_item_not_encodable:
  assumes "\<not> (encodable (ItemCreate_name item) \<and> encodable_option (ItemCreate_description item))"
  shows "create_item item now db = (Inl UnicodeEncodeError, db)"
  using generate_id_not_encodable [OF assms, of now]
  by (simp add: create_item_def DBItem_init_def)

lemma read_item_absent:
  "item_id \<notin> set (map DBItem_id db) \<Longrightarrow>
     read_item item_id db = (Inl (HTTPException 404 ''Item not found''), db)"
  using query_first_None [of item_id db] by (simp add: read_item_def)

lemma read_item_present:
  "query_first item_id db = Some r \<Longrightarrow> read_item item_id db = (Item_init r, db)"
  by (simp add: read_item_def)

lemma setattr_dict:
  "foldl setattr r (ItemUpdate_dict item) =
     r\<lparr>DBItem_name := ItemUpdate_name item, DBItem_description := ItemUpdate_description item\<rparr>"
  by (simp add: ItemUpdate_dict_def)

lemma update_item_absent:
  "item_id \<notin> set (map DBItem_id db) \<Longrightarrow>
     update_item item_id item db = (Inl (HTTPException 404 ''Item not found''), db)"
  using query_first_None [of item_id db] by (simp add: update_item_def)

lemma update_item_present:
  assumes "query_first item_id db = Some r"
    and "encodable_option (ItemUpdate_name item)"
    and "encodable_option (ItemUpdate_description item)"
  shows "update_item item_id item db =
     (Item_init (r\<lparr>DBItem_name := ItemUpdate_name item, DBItem_description := ItemUpdate_description item\<rparr>),
      map (\<lambda>x. if DBItem_id x = item_id
                then r\<lparr>DBItem_name := ItemUpdate_name item,
                       DBItem_description := ItemUpdate_description item\<rparr>
                else x) db)"
proof -
  let ?r' = "r\<lparr>DBItem_name := ItemUpdate_name item, DBItem_description := ItemUpdate_description item\<rparr>"
  have id: "DBItem_id ?r' = item_id"
    using query_first_Some [OF assms(1)] by simp
  have u: "update_commit ?r' db = Inr (map (\<lambda>x. if DBItem_id x = DBItem_id ?r' then ?r' else x) db)"
    using assms(2,3) by (intro update_commit_encodable) simp_all
  have "query_first (DBItem_id ?r') db = Some r"
    using assms(1) id by simp
  then have "query_first (DBItem_id ?r') (map (\<lambda>x. if DBItem_id x = DBItem_id ?r' then ?r' else x) db) = Some ?r'"
    by (rule query_first_changed)
  then show ?thesis
    using assms(1) u id by (simp add: update_item_def setattr_dict refresh_def Let_def)
qed

lemma update_item_not_encodable:
  assumes "query_first item_id db = Some r"
    and "\<not> (encodable_option (ItemUpdate_name item) \<and> encodable_option (ItemUpdate_description item))"
  shows "update_item item_id item db = (Inl UnicodeEncodeError, db)"
proof -
  let ?r' = "r\<lparr>DBItem_name := ItemUpdate_name item, DBItem_description := ItemUpdate_description item\<rparr>"
  have "update_commit ?r' db = Inl UnicodeEncodeError"
    using assms(2) by (intro update_commit_not_encodable) simp
  then show ?thesis
    using assms(1) by (simp add: update_item_def setattr_dict Let_def)
qed

lemma delete_item_absent:
  "item_id \<notin> set (map DBItem_id db) \<Longrightarrow>
     delete_item item_id db = (Inl (HTTPException 404 ''Item not found''), db)"
  using query_first_None [of item_id db] by (simp add: delete_item_def)

lemma delete_item_present:
  "query_first item_id db = Some r \<Longrightarrow>
     delete_item item_id db = (Item_init r, filter (\<lambda>x. DBItem_id x \<noteq> item_id) db)"
  using query_first_Some [of item_id db r] by (simp add: delete_item_def delete_commit_def)

lemma read_all_items_eq: "read_all_items db = (Item_list db, db)"
  by (simp add: read_all_items_def query_all_def)

subsection \<open>Item lists\<close>

lemma Item_init_id: "Item_init r = Inr it \<Longrightarrow> Item_id it = DBItem_id r"
  by (auto simp: Item_init_def split: option.splits)

lemma Item_list_ids: "Item_list rows = Inr its \<Longrightarrow> map Item_id its = map DBItem_id rows"
  by (induction rows arbitrary: its) (auto split: sum.splits dest: Item_init_id)

lemma Item_list_member:
  "Item_list rows = Inr its \<Longrightarrow> r \<in> set rows \<Longrightarrow> \<exists>it. Item_init r = Inr it"
  by (induction rows arbitrary: its) (auto split: sum.splits)

lemma Item_list_filter:
  "Item_list rows = Inr its \<Longrightarrow>
     Item_list (filter (\<lambda>r. P (DBItem_id r)) rows) = Inr (filter (\<lambda>it. P (Item_id it)) its)"
  by (induction rows arbitrary: its) (auto split: sum.splits dest: Item_init_id)

subsection \<open>Runs\<close>

lemma create_item_Inr:
  assumes "create_item item now db = (Inr it, db')"
  shows "\<exists>row. db' = db @ [row] \<and> Item_init row = Inr it \<and> DBItem_id row \<notin> set (map DBItem_id db)"
proof (cases "generate_id (ItemCreate_name item) (ItemCreate_description item) now")
  case (Inl e)
  then show ?thesis
    using assms by (simp add: create_item_def DBItem_init_def)
next
  case (Inr i)
  show ?thesis
  proof (cases "i \<in> set (map DBItem_id db)")
    case True
    then show ?thesis
      using assms Inr by (simp add: create_item_taken)
  next
    case False
    then show ?thesis
      using assms Inr by (auto simp: create_item_fresh Item_init_def)
  qed
qed

lemma create_items_append:
  "create_items reqs db = Some (its, db') \<Longrightarrow>
     \<exists>rows. db' = db @ rows \<and> Item_list rows = Inr its \<and> length its = length reqs
          \<and> (primary_key db \<longrightarrow> primary_key db')"
proof (induction reqs arbitrary: db its db')
  case Nil
  then show ?case by simp
next
  case (Cons req reqs)
  obtain item now where req: "req = (item, now)" by (cases req)
  from Cons.prems req obtain it db1 its1 where
    c: "create_item item now db = (Inr it, db1)" and
    r: "create_items reqs db1 = Some (its1, db')" and
    its: "its = it # its1"
    by (auto split: prod.splits sum.splits option.splits)
  from create_item_Inr [OF c] obtain row where
    row: "db1 = db @ [row]" "Item_init row = Inr it" "DBItem_id row \<notin> set (map DBItem_id db)"
    by blast
  from Cons.IH [OF r] obtain rows where
    rows: "db' = db1 @ rows" "Item_list rows = Inr its1" "length its1 = length reqs"
      "primary_key db1 \<longrightarrow> primary_key db'"
    by blast
  have "db' = db @ (row # rows)" using row rows by simp
  moreover have "Item_list (row # rows) = Inr its" using row rows its by simp
  moreover have "length its = length (req # reqs)" using rows its by simp
  moreover have "primary_key db \<longrightarrow> primary_key db'"
    using row rows by (simp add: primary_key_def)
  ultimately show ?case by blast
qed

lemma delete_items_filter:
  "Item_list db = Inr its \<Longrightarrow> distinct ids \<Longrightarrow> set ids \<subseteq> set (map DBItem_id db) \<Longrightarrow>
     \<exists>dels. delete_items ids db = Some (dels, filter (\<lambda>r. DBItem_id r \<notin> set ids) db)"
proof (induction ids arbitrary: db its)
  case Nil
  then show ?case by simp
next
  case (Cons item_id ids)
  from Cons.prems have "item_id \<in> set (map DBItem_id db)" by simp
  then obtain r where q: "query_first item_id db = Some r"
    using query_first_present by blast
  then have "r \<in> set db" using query_first_Some by blast
  with Cons.prems(1) obtain it where it: "Item_init r = Inr it"
    using Item_list_member by blast
  let ?db' = "filter (\<lambda>x. DBItem_id x \<noteq> item_id) db"
  have d: "delete_item item_id db = (Inr it, ?db')"
    using q it by (simp add: delete_item_present)
  have l: "Item_list ?db' = Inr (filter (\<lambda>x. Item_id x \<noteq> item_id) its)"
    using Item_list_filter [OF Cons.prems(1), of "\<lambda>i. i \<noteq> item_id"] by simp
  have "distinct ids" and "item_id \<notin> set ids"
    using Cons.prems(2) by simp_all
  have "set ids \<subseteq> set (map DBItem_id ?db')"
  proof
    fix x assume x: "x \<in> set ids"
    with Cons.prems(3) obtain r' where "r' \<in> set db" "DBItem_id r' = x" by auto
    moreover have "x \<noteq> item_id" using x \<open>item_id \<notin> set ids\<close> by blast
    ultimately show "x \<in> set (map DBItem_id ?db')" by force
  qed
  from Cons.IH [OF l \<open>distinct ids\<close> this] obtain dels where
    "delete_items ids ?db' = Some (dels, filter (\<lambda>r. DBItem_id r \<notin> set ids) ?db')"
    by blast
  moreover have "filter (\<lambda>r. DBItem_id r \<notin> set ids) ?db'
      = filter (\<lambda>r. DBItem_id r \<notin> set (item_id # ids)) db"
    by (auto intro: filter_cong)
  ultimately show ?case using d by simp
qed

lemma length_filter_distinct:
  assumes "distinct ys" "distinct ids" "set ids \<subseteq> set ys"
  shows "length (filter (\<lambda>y. y \<notin> set ids) ys) = length ys - length ids"
proof -
  have "distinct (filter (\<lambda>y. y \<in> set ids) ys)" using assms by simp
  moreover have "set (filter (\<lambda>y. y \<in> set ids) ys) = set ids" using assms by auto
  ultimately have "length (filter (\<lambda>y. y \<in> set ids) ys) = length ids"
    using assms(2) by (metis distinct_card)
  moreover have "length (filter (\<lambda>y. y \<in> set ids) ys) + length (filter (\<lambda>y. \<not> y \<in> set ids) ys) = length ys"
    by (rule sum_length_filter_compl)
  ultimately show ?thesis by simp
qed

lemma Item_init_named:
  "DBItem_name r = Some n \<Longrightarrow>
     Item_init r = Inr \<lparr>Item_id = DBItem_id r, Item_name = n, Item_description = DBItem_description r\<rparr>"
  by (simp add: Item_init_def)

lemma Item_init_unnamed: "DBItem_name r = None \<Longrightarrow> Item_init r = Inl ValidationError"
  by (simp add: Item_init_def)

lemma Item_init_error: "Item_init r = Inl e \<Longrightarrow> e = ValidationError"
  by (auto simp: Item_init_def split: option.splits)

lemma Item_list_error: "Item_list rows = Inl e \<Longrightarrow> e = ValidationError"
  by (induction rows) (auto split: sum.splits dest: Item_init_error)

lemma Item_list_named:
  "list_all (\<lambda>r. DBItem_name r \<noteq> None) rows \<Longrightarrow> \<exists>its. Item_list rows = Inr its"
  by (induction rows) (auto simp: Item_init_def)

lemma map_id_replaced:
  "DBItem_id r' = i \<Longrightarrow>
     map DBItem_id (map (\<lambda>x. if DBItem_id x = i then r' else x) db) = map DBItem_id db"
  by (induction db) auto

section \<open>What the handlers do on rows that have a name\<close>

text \<open>
  A row with a name is read, updated to another name, listed and deleted as the
  specification describes. The rows that \<open>create_item\<close> writes have a name.
\<close>

lemma read_item_not_found_iff:
  "fst (read_item item_id db) = Inl (HTTPException 404 ''Item not found'')
     \<longleftrightarrow> item_id \<notin> set (map DBItem_id db)"
proof (cases "query_first item_id db")
  case None
  then show ?thesis
    using query_first_None [of item_id db] by (simp add: read_item_def)
next
  case (Some r)
  then have "item_id \<in> set (map DBItem_id db)"
    using query_first_None [of item_id db] by auto
  moreover have "Item_init r \<noteq> Inl (HTTPException 404 ''Item not found'')"
    using Item_init_error [of r] by auto
  ultimately show ?thesis
    using Some by (simp add: read_item_def)
qed

lemma read_item_named:
  assumes "query_first item_id db = Some r" and "DBItem_name r = Some n"
  shows "read_item item_id db =
           (Inr \<lparr>Item_id = item_id, Item_name = n, Item_description = DBItem_description r\<rparr>, db)"
  using assms query_first_Some [OF assms(1)] by (simp add: read_item_present Item_init_named)

lemma update_item_named:
  assumes "query_first item_id db = Some r" and "ItemUpdate_name item = Some n"
    and "encodable n" and "encodable_option (ItemUpdate_description item)"
  shows "update_item item_id item db =
           (Inr \<lparr>Item_id = item_id, Item_name = n, Item_description = ItemUpdate_description item\<rparr>,
            map (\<lambda>x. if DBItem_id x = item_id
                      then r\<lparr>DBItem_name := Some n,
                             DBItem_description := ItemUpdate_description item\<rparr>
                      else x) db)"
proof -
  have "encodable_option (ItemUpdate_name item)"
    using assms(2,3) by (simp add: encodable_option_def)
  then show ?thesis
    using assms query_first_Some [OF assms(1)]
    by (simp add: update_item_present Item_init_named)
qed

lemma read_after_update:
  assumes "query_first item_id db = Some r"
    and "encodable_option (ItemUpdate_name item)"
    and "encodable_option (ItemUpdate_description item)"
  shows "query_first item_id (snd (update_item item_id item db)) =
           Some (r\<lparr>DBItem_name := ItemUpdate_name item,
                    DBItem_description := ItemUpdate_description item\<rparr>)"
proof -
  let ?r' = "r\<lparr>DBItem_name := ItemUpdate_name item, DBItem_description := ItemUpdate_description item\<rparr>"
  have id: "DBItem_id ?r' = item_id"
    using query_first_Some [OF assms(1)] by simp
  then have "query_first (DBItem_id ?r') db = Some r"
    using assms(1) by simp
  then have "query_first (DBItem_id ?r') (map (\<lambda>x. if DBItem_id x = DBItem_id ?r' then ?r' else x) db) = Some ?r'"
    by (rule query_first_changed)
  then show ?thesis
    using assms id by (simp add: update_item_present)
qed

lemma delete_item_named:
  assumes "query_first item_id db = Some r" and "DBItem_name r = Some n"
  shows "delete_item item_id db =
           (Inr \<lparr>Item_id = item_id, Item_name = n, Item_description = DBItem_description r\<rparr>,
            filter (\<lambda>x. DBItem_id x \<noteq> item_id) db)"
  using assms query_first_Some [OF assms(1)] by (simp add: delete_item_present Item_init_named)

lemma delete_item_twice:
  "fst (delete_item item_id (snd (delete_item item_id db)))
     = Inl (HTTPException 404 ''Item not found'')"
proof (cases "query_first item_id db")
  case None
  then have "item_id \<notin> set (map DBItem_id db)"
    by (simp add: query_first_None)
  then show ?thesis
    by (simp add: delete_item_absent)
next
  case (Some r)
  have "item_id \<notin> set (map DBItem_id (filter (\<lambda>x. DBItem_id x \<noteq> item_id) db))"
    by auto
  then show ?thesis
    using Some by (simp add: delete_item_present delete_item_absent)
qed

lemma read_all_items_never_404:
  "fst (read_all_items db) \<noteq> Inl (HTTPException 404 ''Item not found'')"
  using Item_list_error [of db] by (auto simp: read_all_items_eq)

lemma read_all_items_empty: "read_all_items [] = (Inr [], [])"
  by (simp add: read_all_items_eq)

lemma read_all_items_named:
  assumes "list_all (\<lambda>r. DBItem_name r \<noteq> None) db"
  shows "\<exists>its. read_all_items db = (Inr its, db) \<and> map Item_id its = map DBItem_id db"
proof -
  from Item_list_named [OF assms] obtain its where its: "Item_list db = Inr its"
    by blast
  then have "map Item_id its = map DBItem_id db"
    by (rule Item_list_ids)
  with its show ?thesis
    by (simp add: read_all_items_eq)
qed

section \<open>The claims\<close>

subsection \<open>Create, then read\<close>

text \<open>
  C1, as amended. For every name and description made of scalar values (no lone surrogate)
  and every clock reading whose generated id \<open>i\<close> is not yet a primary key of the table,
  \<open>create_item\<close> returns a record whose id is \<open>i\<close>, a text of 64 lowercase hexadecimal
  characters, and \<open>read_item\<close> of that id then returns a record with the name and the
  description that were supplied.
\<close>

theorem create_then_read:
  assumes "encodable (ItemCreate_name item)"
    and "encodable_option (ItemCreate_description item)"
    and "\<forall>i. generate_id (ItemCreate_name item) (ItemCreate_description item) now = Inr i
           \<longrightarrow> i \<notin> set (map DBItem_id db)"
  shows "\<exists>it db' it'.
           create_item item now db = (Inr it, db')
           \<and> generate_id (ItemCreate_name item) (ItemCreate_description item) now = Inr (Item_id it)
           \<and> length (Item_id it) = 64 \<and> lower_hex (Item_id it)
           \<and> read_item (Item_id it) db' = (Inr it', db')
           \<and> Item_id it' = Item_id it
           \<and> Item_name it' = ItemCreate_name item
           \<and> Item_description it' = ItemCreate_description item"
proof -
  obtain i where g: "generate_id (ItemCreate_name item) (ItemCreate_description item) now = Inr i"
    using generate_id_encodable [OF assms(1,2)] by blast
  with assms(3) have fresh: "i \<notin> set (map DBItem_id db)"
    by blast
  let ?row = "\<lparr>DBItem_id = i, DBItem_name = Some (ItemCreate_name item),
               DBItem_description = ItemCreate_description item\<rparr>"
  let ?it = "\<lparr>Item_id = i, Item_name = ItemCreate_name item,
              Item_description = ItemCreate_description item\<rparr>"
  have c: "create_item item now db = (Inr ?it, db @ [?row])"
    using g fresh by (rule create_item_fresh)
  have "query_first i (db @ [?row]) = Some ?row"
    using fresh by (rule query_first_append_new) simp
  moreover have "DBItem_name ?row = Some (ItemCreate_name item)"
    by simp
  ultimately have "read_item i (db @ [?row])
      = (Inr \<lparr>Item_id = i, Item_name = ItemCreate_name item,
              Item_description = DBItem_description ?row\<rparr>, db @ [?row])"
    by (rule read_item_named)
  then have r: "read_item (Item_id ?it) (db @ [?row]) = (Inr ?it, db @ [?row])"
    by simp
  have "length (Item_id ?it) = 64 \<and> lower_hex (Item_id ?it)"
    using generate_id_Inr(3,4) [OF g] by simp
  with c r g show ?thesis
    by (intro exI [of _ ?it] exI [of _ "db @ [?row]"]) simp
qed

theorem create_then_read_witness:
  "encodable (str_of ''foo'') \<and> encodable_option (Some (str_of ''bar''))
   \<and> generate_id (str_of ''foo'') (Some (str_of ''bar'')) ''1700000000.5''
       = Inr ''bd76ec70372dae973ac0da1d385eb86c57ffd85170438c5cbfe0e0191275e623''
   \<and> ''bd76ec70372dae973ac0da1d385eb86c57ffd85170438c5cbfe0e0191275e623''
       \<notin> set (map DBItem_id [])
   \<and> (\<exists>it db' it'.
         create_item \<lparr>ItemCreate_name = str_of ''foo'', ItemCreate_description = Some (str_of ''bar'')\<rparr>
             ''1700000000.5'' [] = (Inr it, db')
         \<and> Item_id it = ''bd76ec70372dae973ac0da1d385eb86c57ffd85170438c5cbfe0e0191275e623''
         \<and> length (Item_id it) = 64 \<and> lower_hex (Item_id it)
         \<and> read_item (Item_id it) db' = (Inr it', db')
         \<and> Item_id it' = Item_id it
         \<and> Item_name it' = str_of ''foo''
         \<and> Item_description it' = Some (str_of ''bar''))"
proof -
  have e: "encodable (str_of ''foo'')" "encodable_option (Some (str_of ''bar''))"
    by (simp_all add: encodable_option_def encodable_str_of)
  have f: "''bd76ec70372dae973ac0da1d385eb86c57ffd85170438c5cbfe0e0191275e623''
       \<notin> set (map DBItem_id [])"
    by simp
  show ?thesis
    using e f generate_id_foo_bar_0
      create_then_read [of "\<lparr>ItemCreate_name = str_of ''foo'', ItemCreate_description = Some (str_of ''bar'')\<rparr>"
        "''1700000000.5''" "[]"]
    by auto
qed

text \<open>
  The claim as it is written, for every name and description, fails in two ways. When the
  clock gives two requests the same reading, the second insert meets the primary key of the
  first. When the name holds a lone surrogate, \<open>generate_id\<close> raises and nothing is stored.
\<close>

theorem create_item_fails_counterexample:
  "fst (create_item \<lparr>ItemCreate_name = str_of ''foo'', ItemCreate_description = Some (str_of ''bar'')\<rparr>
          ''1700000000.5''
          (snd (create_item \<lparr>ItemCreate_name = str_of ''foo'', ItemCreate_description = Some (str_of ''bar'')\<rparr>
                  ''1700000000.5'' [])))
     = Inl IntegrityError
   \<and> create_item \<lparr>ItemCreate_name = [0xD800], ItemCreate_description = Some (str_of ''bar'')\<rparr>
        ''1700000000.5'' []
     = (Inl UnicodeEncodeError, [])"
proof
  let ?item = "\<lparr>ItemCreate_name = str_of ''foo'', ItemCreate_description = Some (str_of ''bar'')\<rparr>"
  let ?i = "''bd76ec70372dae973ac0da1d385eb86c57ffd85170438c5cbfe0e0191275e623''"
  have g: "generate_id (ItemCreate_name ?item) (ItemCreate_description ?item) ''1700000000.5'' = Inr ?i"
    by (simp add: generate_id_foo_bar_0)
  have "create_item ?item ''1700000000.5'' []
      = (Inr \<lparr>Item_id = ?i, Item_name = ItemCreate_name ?item,
              Item_description = ItemCreate_description ?item\<rparr>,
         [] @ [\<lparr>DBItem_id = ?i, DBItem_name = Some (ItemCreate_name ?item),
                DBItem_description = ItemCreate_description ?item\<rparr>])"
    using g by (rule create_item_fresh) simp
  then have s: "snd (create_item ?item ''1700000000.5'' [])
      = [\<lparr>DBItem_id = ?i, DBItem_name = Some (str_of ''foo''),
          DBItem_description = Some (str_of ''bar'')\<rparr>]"
    by simp
  have "create_item ?item ''1700000000.5''
          [\<lparr>DBItem_id = ?i, DBItem_name = Some (str_of ''foo''),
            DBItem_description = Some (str_of ''bar'')\<rparr>] = (Inl IntegrityError,
          [\<lparr>DBItem_id = ?i, DBItem_name = Some (str_of ''foo''),
            DBItem_description = Some (str_of ''bar'')\<rparr>])"
    using g by (rule create_item_taken) simp
  then show "fst (create_item ?item ''1700000000.5'' (snd (create_item ?item ''1700000000.5'' [])))
      = Inl IntegrityError"
    by (simp only: s fst_conv)
next
  show "create_item \<lparr>ItemCreate_name = [0xD800], ItemCreate_description = Some (str_of ''bar'')\<rparr>
        ''1700000000.5'' []
     = (Inl UnicodeEncodeError, [])"
    by (rule create_item_not_encodable) (simp add: not_encodable_surrogate)
qed

subsection \<open>A row without a name\<close>

text \<open>
  \<^verbatim>\<open>ItemUpdate.name\<close> is optional and the column is nullable, but \<^verbatim>\<open>Item.name\<close> is a
  \<^verbatim>\<open>str\<close>. An update that carries no name commits a row whose name is \<open>None\<close>, and every
  handler that then builds an \<^verbatim>\<open>Item\<close> from that row raises pydantic's validation error.
  The four evaluations below start from the empty table, create one item, whose id is the
  first of the known answers above, and update it with a description and no name.
\<close>

lemma table_after_create:
  "snd (create_item \<lparr>ItemCreate_name = str_of ''foo'', ItemCreate_description = Some (str_of ''bar'')\<rparr>
          ''1700000000.5'' [])
     = [\<lparr>DBItem_id = ''bd76ec70372dae973ac0da1d385eb86c57ffd85170438c5cbfe0e0191275e623'',
         DBItem_name = Some (str_of ''foo''), DBItem_description = Some (str_of ''bar'')\<rparr>]"
proof -
  let ?item = "\<lparr>ItemCreate_name = str_of ''foo'', ItemCreate_description = Some (str_of ''bar'')\<rparr>"
  let ?i = "''bd76ec70372dae973ac0da1d385eb86c57ffd85170438c5cbfe0e0191275e623''"
  have g: "generate_id (ItemCreate_name ?item) (ItemCreate_description ?item) ''1700000000.5'' = Inr ?i"
    by (simp add: generate_id_foo_bar_0)
  have "create_item ?item ''1700000000.5'' []
      = (Inr \<lparr>Item_id = ?i, Item_name = ItemCreate_name ?item,
              Item_description = ItemCreate_description ?item\<rparr>,
         [] @ [\<lparr>DBItem_id = ?i, DBItem_name = Some (ItemCreate_name ?item),
                DBItem_description = ItemCreate_description ?item\<rparr>])"
    using g by (rule create_item_fresh) simp
  then show ?thesis
    by simp
qed

lemma update_without_name:
  "update_item ''bd76ec70372dae973ac0da1d385eb86c57ffd85170438c5cbfe0e0191275e623''
      \<lparr>ItemUpdate_name = None, ItemUpdate_description = Some (str_of ''baz'')\<rparr>
      [\<lparr>DBItem_id = ''bd76ec70372dae973ac0da1d385eb86c57ffd85170438c5cbfe0e0191275e623'',
        DBItem_name = Some (str_of ''foo''), DBItem_description = Some (str_of ''bar'')\<rparr>]
     = (Inl ValidationError,
        [\<lparr>DBItem_id = ''bd76ec70372dae973ac0da1d385eb86c57ffd85170438c5cbfe0e0191275e623'',
          DBItem_name = None, DBItem_description = Some (str_of ''baz'')\<rparr>])"
proof -
  let ?i = "''bd76ec70372dae973ac0da1d385eb86c57ffd85170438c5cbfe0e0191275e623''"
  let ?r = "\<lparr>DBItem_id = ?i, DBItem_name = Some (str_of ''foo''),
             DBItem_description = Some (str_of ''bar'')\<rparr>"
  let ?u = "\<lparr>ItemUpdate_name = None, ItemUpdate_description = Some (str_of ''baz'')\<rparr>"
  have q: "query_first ?i [?r] = Some ?r"
    by (simp add: query_first_def)
  have e: "encodable_option (ItemUpdate_name ?u)" "encodable_option (ItemUpdate_description ?u)"
    by (simp_all add: encodable_option_def encodable_str_of)
  show ?thesis
    using update_item_present [OF q e] by (simp add: Item_init_def)
qed

text \<open>
  C3. \<open>update_item\<close> is to overwrite the stored fields, with \<open>None\<close> for a field left out,
  commit, and return the updated record. With no name in the request the row is committed
  with the name \<open>None\<close>, and the handler raises instead of returning it.
\<close>

theorem update_item_without_name:
  "let item_id = ''bd76ec70372dae973ac0da1d385eb86c57ffd85170438c5cbfe0e0191275e623'';
       db1 = snd (create_item \<lparr>ItemCreate_name = str_of ''foo'',
                                ItemCreate_description = Some (str_of ''bar'')\<rparr>
                    ''1700000000.5'' [])
   in map DBItem_id db1 = [item_id]
      \<and> update_item item_id
           \<lparr>ItemUpdate_name = None, ItemUpdate_description = Some (str_of ''baz'')\<rparr> db1
        = (Inl ValidationError,
           [\<lparr>DBItem_id = item_id, DBItem_name = None,
             DBItem_description = Some (str_of ''baz'')\<rparr>])"
  by (simp add: table_after_create update_without_name)

text \<open>
  C2. \<open>read_item\<close> is to return the record whenever one with the id is in the table.
  The row that the update left is in the table, and reading it raises.
\<close>

theorem read_item_row_without_name:
  "let item_id = ''bd76ec70372dae973ac0da1d385eb86c57ffd85170438c5cbfe0e0191275e623'';
       db1 = snd (create_item \<lparr>ItemCreate_name = str_of ''foo'',
                                ItemCreate_description = Some (str_of ''bar'')\<rparr>
                    ''1700000000.5'' []);
       db2 = snd (update_item item_id
                    \<lparr>ItemUpdate_name = None, ItemUpdate_description = Some (str_of ''baz'')\<rparr> db1)
   in item_id \<in> set (map DBItem_id db2)
      \<and> read_item item_id db2 = (Inl ValidationError, db2)"
  by (simp add: table_after_create update_without_name read_item_def query_first_def Item_init_def)

text \<open>
  C5. \<open>delete_item\<close> is to remove the record and return the values it had. On the row
  without a name the delete is committed, and the handler raises instead of returning them.
\<close>

theorem delete_item_row_without_name:
  "let item_id = ''bd76ec70372dae973ac0da1d385eb86c57ffd85170438c5cbfe0e0191275e623'';
       db1 = snd (create_item \<lparr>ItemCreate_name = str_of ''foo'',
                                ItemCreate_description = Some (str_of ''bar'')\<rparr>
                    ''1700000000.5'' []);
       db2 = snd (update_item item_id
                    \<lparr>ItemUpdate_name = None, ItemUpdate_description = Some (str_of ''baz'')\<rparr> db1)
   in item_id \<in> set (map DBItem_id db2)
      \<and> delete_item item_id db2 = (Inl ValidationError, [])"
  by (simp add: table_after_create update_without_name delete_item_def query_first_def
      Item_init_def delete_commit_def)

text \<open>
  C7. \<open>read_all_items\<close> is never to fail. Its 404 is indeed never raised
  (\<open>read_all_items_never_404\<close>) and the empty table gives the empty list, but one row
  without a name makes the whole listing raise.
\<close>

theorem read_all_items_row_without_name:
  "let item_id = ''bd76ec70372dae973ac0da1d385eb86c57ffd85170438c5cbfe0e0191275e623'';
       db1 = snd (create_item \<lparr>ItemCreate_name = str_of ''foo'',
                                ItemCreate_description = Some (str_of ''bar'')\<rparr>
                    ''1700000000.5'' []);
       db2 = snd (update_item item_id
                    \<lparr>ItemUpdate_name = None, ItemUpdate_description = Some (str_of ''baz'')\<rparr> db1)
   in read_all_items db2 = (Inl ValidationError, db2)"
  by (simp add: table_after_create update_without_name read_all_items_eq Item_init_def)

subsection \<open>The id under update\<close>

text \<open>
  C4. For every record in the table and every update request, the ids of the table are
  the same after \<open>update_item\<close> as before it, the record is still found under its id, and
  a record that the handler returns carries that id: the loop assigns the name and the
  description only.
\<close>

theorem update_item_keeps_id:
  assumes "query_first item_id db = Some db_item"
  shows "map DBItem_id (snd (update_item item_id item db)) = map DBItem_id db
       \<and> (\<exists>r. query_first item_id (snd (update_item item_id item db)) = Some r
              \<and> DBItem_id r = DBItem_id db_item)
       \<and> (\<forall>it. fst (update_item item_id item db) = Inr it \<longrightarrow> Item_id it = DBItem_id db_item)"
proof (cases "encodable_option (ItemUpdate_name item) \<and> encodable_option (ItemUpdate_description item)")
  case True
  let ?r' = "db_item\<lparr>DBItem_name := ItemUpdate_name item,
                     DBItem_description := ItemUpdate_description item\<rparr>"
  have id: "DBItem_id ?r' = item_id"
    using query_first_Some [OF assms] by simp
  have u: "update_item item_id item db
      = (Item_init ?r', map (\<lambda>x. if DBItem_id x = item_id then ?r' else x) db)"
    using assms True by (simp add: update_item_present)
  have "map DBItem_id (snd (update_item item_id item db)) = map DBItem_id db"
    using u map_id_replaced [OF id, of db] by simp
  moreover have "query_first item_id (snd (update_item item_id item db)) = Some ?r'"
    using assms True by (simp add: read_after_update)
  moreover have "\<forall>it. fst (update_item item_id item db) = Inr it \<longrightarrow> Item_id it = DBItem_id db_item"
    using u by (auto dest: Item_init_id)
  ultimately show ?thesis
    by simp
next
  case False
  with assms have "update_item item_id item db = (Inl UnicodeEncodeError, db)"
    by (rule update_item_not_encodable)
  with assms show ?thesis
    by simp
qed

theorem update_item_keeps_id_witness:
  "query_first ''a'' [\<lparr>DBItem_id = ''a'', DBItem_name = Some (str_of ''foo''), DBItem_description = None\<rparr>]
     = Some \<lparr>DBItem_id = ''a'', DBItem_name = Some (str_of ''foo''), DBItem_description = None\<rparr>
   \<and> map DBItem_id (snd (update_item ''a''
         \<lparr>ItemUpdate_name = Some (str_of ''id''), ItemUpdate_description = Some (str_of ''b'')\<rparr>
         [\<lparr>DBItem_id = ''a'', DBItem_name = Some (str_of ''foo''), DBItem_description = None\<rparr>]))
     = [''a'']
   \<and> fst (update_item ''a''
         \<lparr>ItemUpdate_name = Some (str_of ''id''), ItemUpdate_description = Some (str_of ''b'')\<rparr>
         [\<lparr>DBItem_id = ''a'', DBItem_name = Some (str_of ''foo''), DBItem_description = None\<rparr>])
     = Inr \<lparr>Item_id = ''a'', Item_name = str_of ''id'', Item_description = Some (str_of ''b'')\<rparr>"
proof -
  have q: "query_first ''a'' [\<lparr>DBItem_id = ''a'', DBItem_name = Some (str_of ''foo''), DBItem_description = None\<rparr>]
     = Some \<lparr>DBItem_id = ''a'', DBItem_name = Some (str_of ''foo''), DBItem_description = None\<rparr>"
    by (simp add: query_first_def)
  have e: "encodable_option (Some (str_of ''id''))" "encodable_option (Some (str_of ''b''))"
    by (simp_all add: encodable_option_def encodable_str_of)
  show ?thesis
    using q e update_item_keeps_id [OF q,
        of "\<lparr>ItemUpdate_name = Some (str_of ''id''), ItemUpdate_description = Some (str_of ''b'')\<rparr>"]
    by (simp add: update_item_present Item_init_def)
qed

subsection \<open>Creates, deletes, and the listing\<close>

text \<open>
  C6. Let a run of N create requests on the empty table succeed, and let M distinct ids
  among those created be deleted. Then every delete succeeds, and \<open>read_all_items\<close>
  returns the created items whose id was not deleted, N - M of them.
\<close>

theorem list_after_creates_and_deletes:
  assumes "create_items reqs [] = Some (created, db1)"
      and "distinct ids" and "set ids \<subseteq> set (map Item_id created)"
  shows "\<exists>deleted db2 listed.
           delete_items ids db1 = Some (deleted, db2)
           \<and> read_all_items db2 = (Inr listed, db2)
           \<and> listed = filter (\<lambda>it. Item_id it \<notin> set ids) created
           \<and> length created = length reqs
           \<and> length listed = length reqs - length ids"
proof -
  from create_items_append [OF assms(1)] have
    l: "Item_list db1 = Inr created" and n: "length created = length reqs" and pk: "primary_key db1"
    by (auto simp: primary_key_def)
  have ids: "map Item_id created = map DBItem_id db1"
    using l by (rule Item_list_ids)
  then have sub: "set ids \<subseteq> set (map DBItem_id db1)" using assms(3) by simp
  let ?db2 = "filter (\<lambda>r. DBItem_id r \<notin> set ids) db1"
  let ?listed = "filter (\<lambda>it. Item_id it \<notin> set ids) created"
  from delete_items_filter [OF l assms(2) sub] obtain dels where
    d: "delete_items ids db1 = Some (dels, ?db2)" by blast
  have "Item_list ?db2 = Inr ?listed"
    using Item_list_filter [OF l, of "\<lambda>i. i \<notin> set ids"] by simp
  then have r: "read_all_items ?db2 = (Inr ?listed, ?db2)"
    by (simp add: read_all_items_eq)
  have "distinct (map Item_id created)" using pk ids by (simp add: primary_key_def)
  then have "length (filter (\<lambda>y. y \<notin> set ids) (map Item_id created)) = length (map Item_id created) - length ids"
    using assms(2,3) by (rule length_filter_distinct)
  then have "length ?listed = length created - length ids"
    by (simp add: filter_map comp_def)
  with d r n show ?thesis by simp
qed

theorem list_after_creates_and_deletes_witness:
  "create_items
      [(\<lparr>ItemCreate_name = str_of ''foo'', ItemCreate_description = Some (str_of ''bar'')\<rparr>,
        ''1700000000.5''),
       (\<lparr>ItemCreate_name = str_of ''foo'', ItemCreate_description = Some (str_of ''bar'')\<rparr>,
        ''1700000001.5'')] []
     = Some ([\<lparr>Item_id = ''bd76ec70372dae973ac0da1d385eb86c57ffd85170438c5cbfe0e0191275e623'',
               Item_name = str_of ''foo'', Item_description = Some (str_of ''bar'')\<rparr>,
              \<lparr>Item_id = ''ea812426545498dafd5c222420ba2a7f8856ce940cf32b36e79f0d902e03af8c'',
               Item_name = str_of ''foo'', Item_description = Some (str_of ''bar'')\<rparr>],
             [\<lparr>DBItem_id = ''bd76ec70372dae973ac0da1d385eb86c57ffd85170438c5cbfe0e0191275e623'',
               DBItem_name = Some (str_of ''foo''), DBItem_description = Some (str_of ''bar'')\<rparr>,
              \<lparr>DBItem_id = ''ea812426545498dafd5c222420ba2a7f8856ce940cf32b36e79f0d902e03af8c'',
               DBItem_name = Some (str_of ''foo''), DBItem_description = Some (str_of ''bar'')\<rparr>])
   \<and> distinct [''bd76ec70372dae973ac0da1d385eb86c57ffd85170438c5cbfe0e0191275e623'']
   \<and> (\<exists>deleted db2.
         delete_items [''bd76ec70372dae973ac0da1d385eb86c57ffd85170438c5cbfe0e0191275e623'']
            [\<lparr>DBItem_id = ''bd76ec70372dae973ac0da1d385eb86c57ffd85170438c5cbfe0e0191275e623'',
              DBItem_name = Some (str_of ''foo''), DBItem_description = Some (str_of ''bar'')\<rparr>,
             \<lparr>DBItem_id = ''ea812426545498dafd5c222420ba2a7f8856ce940cf32b36e79f0d902e03af8c'',
              DBItem_name = Some (str_of ''foo''), DBItem_description = Some (str_of ''bar'')\<rparr>]
           = Some (deleted, db2)
         \<and> read_all_items db2
           = (Inr [\<lparr>Item_id = ''ea812426545498dafd5c222420ba2a7f8856ce940cf32b36e79f0d902e03af8c'',
                    Item_name = str_of ''foo'', Item_description = Some (str_of ''bar'')\<rparr>], db2))"
proof -
  let ?item = "\<lparr>ItemCreate_name = str_of ''foo'', ItemCreate_description = Some (str_of ''bar'')\<rparr>"
  let ?i0 = "''bd76ec70372dae973ac0da1d385eb86c57ffd85170438c5cbfe0e0191275e623''"
  let ?i1 = "''ea812426545498dafd5c222420ba2a7f8856ce940cf32b36e79f0d902e03af8c''"
  let ?r0 = "\<lparr>DBItem_id = ?i0, DBItem_name = Some (str_of ''foo''),
              DBItem_description = Some (str_of ''bar'')\<rparr>"
  let ?r1 = "\<lparr>DBItem_id = ?i1, DBItem_name = Some (str_of ''foo''),
              DBItem_description = Some (str_of ''bar'')\<rparr>"
  have g0: "generate_id (ItemCreate_name ?item) (ItemCreate_description ?item) ''1700000000.5'' = Inr ?i0"
    by (simp add: generate_id_foo_bar_0)
  have g1: "generate_id (ItemCreate_name ?item) (ItemCreate_description ?item) ''1700000001.5'' = Inr ?i1"
    by (simp add: generate_id_foo_bar_1)
  have c0: "create_item ?item ''1700000000.5'' []
      = (Inr \<lparr>Item_id = ?i0, Item_name = str_of ''foo'', Item_description = Some (str_of ''bar'')\<rparr>,
         [?r0])"
    using create_item_fresh [OF g0, of "[]"] by simp
  have c1: "create_item ?item ''1700000001.5'' [?r0]
      = (Inr \<lparr>Item_id = ?i1, Item_name = str_of ''foo'', Item_description = Some (str_of ''bar'')\<rparr>,
         [?r0, ?r1])"
    using create_item_fresh [OF g1, of "[?r0]"] by simp
  have c: "create_items [(?item, ''1700000000.5''), (?item, ''1700000001.5'')] []
      = Some ([\<lparr>Item_id = ?i0, Item_name = str_of ''foo'', Item_description = Some (str_of ''bar'')\<rparr>,
               \<lparr>Item_id = ?i1, Item_name = str_of ''foo'', Item_description = Some (str_of ''bar'')\<rparr>],
              [?r0, ?r1])"
    by (simp add: c0 c1)
  have d: "distinct [?i0]"
    by simp
  show ?thesis
    using c d list_after_creates_and_deletes [OF c d]
    by simp
qed

subsection \<open>Not found\<close>

text \<open>
  C10. For every table and every id that no row has, \<open>read_item\<close>, \<open>update_item\<close> and
  \<open>delete_item\<close> raise the 404 with the detail \<^verbatim>\<open>Item not found\<close>, and each leaves the
  table as it was.
\<close>

theorem not_found_leaves_table:
  assumes "item_id \<notin> set (map DBItem_id db)"
  shows "read_item item_id db = (Inl (HTTPException 404 ''Item not found''), db)
       \<and> update_item item_id item db = (Inl (HTTPException 404 ''Item not found''), db)
       \<and> delete_item item_id db = (Inl (HTTPException 404 ''Item not found''), db)"
  using assms by (simp add: read_item_absent update_item_absent delete_item_absent)

theorem not_found_leaves_table_witness:
  "''b'' \<notin> set (map DBItem_id [\<lparr>DBItem_id = ''a'', DBItem_name = Some (str_of ''foo''), DBItem_description = None\<rparr>])
   \<and> read_item ''b'' [\<lparr>DBItem_id = ''a'', DBItem_name = Some (str_of ''foo''), DBItem_description = None\<rparr>]
       = (Inl (HTTPException 404 ''Item not found''),
          [\<lparr>DBItem_id = ''a'', DBItem_name = Some (str_of ''foo''), DBItem_description = None\<rparr>])
   \<and> update_item ''b'' \<lparr>ItemUpdate_name = Some (str_of ''x''), ItemUpdate_description = None\<rparr>
         [\<lparr>DBItem_id = ''a'', DBItem_name = Some (str_of ''foo''), DBItem_description = None\<rparr>]
       = (Inl (HTTPException 404 ''Item not found''),
          [\<lparr>DBItem_id = ''a'', DBItem_name = Some (str_of ''foo''), DBItem_description = None\<rparr>])
   \<and> delete_item ''b'' [\<lparr>DBItem_id = ''a'', DBItem_name = Some (str_of ''foo''), DBItem_description = None\<rparr>]
       = (Inl (HTTPException 404 ''Item not found''),
          [\<lparr>DBItem_id = ''a'', DBItem_name = Some (str_of ''foo''), DBItem_description = None\<rparr>])"
  using not_found_leaves_table
    [of "''b''" "[\<lparr>DBItem_id = ''a'', DBItem_name = Some (str_of ''foo''), DBItem_description = None\<rparr>]"
        "\<lparr>ItemUpdate_name = Some (str_of ''x''), ItemUpdate_description = None\<rparr>"]
  by simp

end
